theory Spec2Isabelle
  imports Main
begin

unbundle bit_operations_syntax

section \<open>Python values: errors, outcomes, indexing and slicing\<close>

text \<open>
  The library is Python. Integers are unbounded (\<open>int\<close>), \<open>|\<close>, \<open>&\<close>, \<open>^\<close>, \<open><<\<close> and
  \<open>>>\<close> are the two's complement operations \<open>OR\<close>, \<open>AND\<close>, \<open>XOR\<close>, \<open>push_bit\<close> and
  \<open>drop_bit\<close>. The exceptions that the modelled code can raise are values.
\<close>

datatype py_error = IndexError | NameError | AttributeError | ValueError | TypeError

text \<open>
  A method that mutates \<open>self\<close> either returns (\<open>Done\<close>) or raises (\<open>Raised\<close>); in both
  cases the object keeps whatever was written before, so both carry the state.
\<close>

datatype 's outcome = Done 's | Raised py_error 's

fun state_of :: "'s outcome \<Rightarrow> 's" where
  "state_of (Done s) = s"
| "state_of (Raised e s) = s"

text \<open>A \<open>for\<close> loop over a list whose body mutates the state: it stops at the first raise.\<close>

fun for_each :: "('a \<Rightarrow> 's \<Rightarrow> 's outcome) \<Rightarrow> 'a list \<Rightarrow> 's \<Rightarrow> 's outcome" where
  "for_each body [] s = Done s"
| "for_each body (x # xs) s =
     (case body x s of Done s' \<Rightarrow> for_each body xs s' | Raised e s' \<Rightarrow> Raised e s')"

text \<open>A list comprehension whose element expression may raise.\<close>

fun collect :: "(py_error + 'a) list \<Rightarrow> py_error + 'a list" where
  "collect [] = Inr []"
| "collect (r # rs) =
     (case r of Inl e \<Rightarrow> Inl e
      | Inr v \<Rightarrow> (case collect rs of Inl e \<Rightarrow> Inl e | Inr vs \<Rightarrow> Inr (v # vs)))"

text \<open>\<open>range(n)\<close> for an integer \<open>n\<close> (empty when \<open>n \<le> 0\<close>).\<close>

definition py_range :: "int \<Rightarrow> int list" where
  "py_range n = map int [0..<nat n]"

text \<open>
  \<open>xs[i]\<close>: a negative index counts from the end; outside \<open>-len(xs) \<le> i < len(xs)\<close> the
  access raises IndexError. \<open>py_index\<close> is the position that is read or written.
\<close>

definition py_index :: "'a list \<Rightarrow> int \<Rightarrow> nat option" where
  "py_index xs i =
     (let n = int (length xs); j = (if i < 0 then i + n else i)
      in if 0 \<le> j \<and> j < n then Some (nat j) else None)"

definition py_get :: "'a list \<Rightarrow> int \<Rightarrow> py_error + 'a" where
  "py_get xs i = (case py_index xs i of None \<Rightarrow> Inl IndexError | Some k \<Rightarrow> Inr (xs ! k))"

text \<open>\<open>xs[:n]\<close>: a negative bound drops \<open>-n\<close> elements from the end.\<close>

definition py_slice_to :: "int \<Rightarrow> 'a list \<Rightarrow> 'a list" where
  "py_slice_to n xs = (if n < 0 then take (nat (int (length xs) + n)) xs else take (nat n) xs)"

section \<open>Row packing\<close>

text \<open>
  \<^verbatim>\<open>def pack_row(row):
    return row[7] << 7 | row[6] << 6 | ... | row[1] << 1 | row[0]\<close>
  \<open>row[7]\<close> is evaluated first, so a row of fewer than 8 entries raises IndexError; entries
  beyond the eighth are not read.
\<close>

definition pack_row :: "int list \<Rightarrow> py_error + int" where
  "pack_row row =
     (if length row < 8 then Inl IndexError
      else Inr (push_bit 7 (row ! 7) OR push_bit 6 (row ! 6) OR push_bit 5 (row ! 5) OR
                push_bit 4 (row ! 4) OR push_bit 3 (row ! 3) OR push_bit 2 (row ! 2) OR
                push_bit 1 (row ! 1) OR row ! 0))"

text \<open>
  The source has no decoder. \<open>unpack_row\<close> follows the specification's words: bit \<open>i\<close> of
  the packed byte is column \<open>i\<close> of the row.
\<close>

definition unpack_row :: "int \<Rightarrow> int list" where
  "unpack_row n = map (\<lambda>i. drop_bit i n AND 1) [0..<8]"

definition binary :: "int \<Rightarrow> bool" where
  "binary v = (v = 0 \<or> v = 1)"

definition binary_row :: "int list \<Rightarrow> bool" where
  "binary_row row = (length row = 8 \<and> list_all binary row)"

section \<open>GridBuffer: the LED mirror\<close>

text \<open>
  \<^verbatim>\<open>class GridBuffer:
    def __init__(self, width, height):
        self.levels = [[0 for col in range(width)] for row in range(height)]
        self.width = width
        self.height = height\<close>
\<close>

record GridBuffer =
  levels :: "int list list"
  width :: int
  height :: int

definition GridBuffer_init :: "int \<Rightarrow> int \<Rightarrow> GridBuffer" where
  "GridBuffer_init w h =
     \<lparr>levels = replicate (nat h) (replicate (nat w) 0), width = w, height = h\<rparr>"

text \<open>
  \<open>self.levels[y][x] = l\<close> and \<open>self.levels[y][x]\<close>: the row is looked up first, then the
  column, each with Python's indexing. The rows are separate lists, so a write changes one cell.
\<close>

definition set_level :: "GridBuffer \<Rightarrow> int \<Rightarrow> int \<Rightarrow> int \<Rightarrow> GridBuffer outcome" where
  "set_level b x y l =
     (case py_index (levels b) y of
        None \<Rightarrow> Raised IndexError b
      | Some r \<Rightarrow>
          (case py_index (levels b ! r) x of
             None \<Rightarrow> Raised IndexError b
           | Some c \<Rightarrow> Done (b\<lparr>levels := (levels b)[r := (levels b ! r)[c := l]]\<rparr>)))"

definition get_level :: "GridBuffer \<Rightarrow> int \<Rightarrow> int \<Rightarrow> py_error + int" where
  "get_level b x y =
     (case py_get (levels b) y of Inl e \<Rightarrow> Inl e | Inr row \<Rightarrow> py_get row x)"

text \<open>
  \<^verbatim>\<open>def led_level_set(self, x, y, l):
    if x < self.width and y < self.height:
        self.levels[y][x] = l\<close>
\<close>

definition led_level_set :: "GridBuffer \<Rightarrow> int \<Rightarrow> int \<Rightarrow> int \<Rightarrow> GridBuffer outcome" where
  "led_level_set b x y l =
     (if x < width b \<and> y < height b then set_level b x y l else Done b)"

text \<open>
  \<^verbatim>\<open>def led_level_all(self, l):
    for x in range(self.width):
        for y in range(self.height):
            self.levels[y][x] = l\<close>
\<close>

definition led_level_all :: "GridBuffer \<Rightarrow> int \<Rightarrow> GridBuffer outcome" where
  "led_level_all b l =
     for_each (\<lambda>x. for_each (\<lambda>y b'. set_level b' x y l) (py_range (height b)))
       (py_range (width b)) b"

text \<open>
  \<^verbatim>\<open>def led_level_row(self, x_offset, y, data):
    if y < self.height:
        for x, l in enumerate(data[:self.width - x_offset]):
            self.levels[y][x + x_offset] = l\<close>
\<close>

definition led_level_row :: "GridBuffer \<Rightarrow> int \<Rightarrow> int \<Rightarrow> int list \<Rightarrow> GridBuffer outcome" where
  "led_level_row b x_offset y data =
     (if y < height b
      then for_each (\<lambda>(x, l) b'. set_level b' (int x + x_offset) y l)
             (enumerate 0 (py_slice_to (width b - x_offset) data)) b
      else Done b)"

text \<open>
  \<^verbatim>\<open>def led_level_col(self, x, y_offset, data):
    if x < self.width:
        for y, l in enumerate(data[:self.height - y_offset]):
            self.levels[y + y_offset][x] = l\<close>
\<close>

definition led_level_col :: "GridBuffer \<Rightarrow> int \<Rightarrow> int \<Rightarrow> int list \<Rightarrow> GridBuffer outcome" where
  "led_level_col b x y_offset data =
     (if x < width b
      then for_each (\<lambda>(y, l) b'. set_level b' x (int y + y_offset) l)
             (enumerate 0 (py_slice_to (height b - y_offset) data)) b
      else Done b)"

text \<open>
  \<^verbatim>\<open>def led_level_map(self, x_offset, y_offset, data):
    for r, row in enumerate(data):
        self.led_level_row(x_offset, y_offset + r, row)\<close>
\<close>

definition led_level_map :: "GridBuffer \<Rightarrow> int \<Rightarrow> int \<Rightarrow> int list list \<Rightarrow> GridBuffer outcome" where
  "led_level_map b x_offset y_offset data =
     for_each (\<lambda>(r, row) b'. led_level_row b' x_offset (y_offset + int r) row)
       (enumerate 0 data) b"

text \<open>
  The binary operations store \<open>s * 15\<close> through the level operations:
  \<^verbatim>\<open>def led_set(self, x, y, s):   self.led_level_set(x, y, s * 15)
def led_all(self, s):         self.led_level_all(s * 15)
def led_map(self, x_offset, y_offset, data):
    for r, row in enumerate(data): self.led_row(x_offset, y_offset + r, row)
def led_row(self, x_offset, y, data):
    for x, s in enumerate(data): self.led_set(x_offset + x, y, s)
def led_col(self, x, y_offset, data):
    for y, s in enumerate(data): self.led_set(x, y_offset + y, s)\<close>
\<close>

definition led_set :: "GridBuffer \<Rightarrow> int \<Rightarrow> int \<Rightarrow> int \<Rightarrow> GridBuffer outcome" where
  "led_set b x y s = led_level_set b x y (s * 15)"

definition led_all :: "GridBuffer \<Rightarrow> int \<Rightarrow> GridBuffer outcome" where
  "led_all b s = led_level_all b (s * 15)"

definition led_row :: "GridBuffer \<Rightarrow> int \<Rightarrow> int \<Rightarrow> int list \<Rightarrow> GridBuffer outcome" where
  "led_row b x_offset y data =
     for_each (\<lambda>(x, s) b'. led_set b' (x_offset + int x) y s) (enumerate 0 data) b"

definition led_col :: "GridBuffer \<Rightarrow> int \<Rightarrow> int \<Rightarrow> int list \<Rightarrow> GridBuffer outcome" where
  "led_col b x y_offset data =
     for_each (\<lambda>(y, s) b'. led_set b' x (y_offset + int y) s) (enumerate 0 data) b"

definition led_map :: "GridBuffer \<Rightarrow> int \<Rightarrow> int \<Rightarrow> int list list \<Rightarrow> GridBuffer outcome" where
  "led_map b x_offset y_offset data =
     for_each (\<lambda>(r, row) b'. led_row b' x_offset (y_offset + int r) row) (enumerate 0 data) b"

text \<open>
  \<^verbatim>\<open>def get_level_map(self, x_offset, y_offset):
    map = []
    for y in range(y_offset, y_offset + 8):
        row = [self.levels[y][col] for col in range(x_offset, x_offset + 8)]
        map.append(row)
    return map\<close>
\<close>

definition get_level_map :: "GridBuffer \<Rightarrow> int \<Rightarrow> int \<Rightarrow> py_error + int list list" where
  "get_level_map b x_offset y_offset =
     collect (map (\<lambda>y. collect (map (\<lambda>col. get_level b col y)
                                   (map (\<lambda>i. x_offset + int i) [0..<8])))
                (map (\<lambda>i. y_offset + int i) [0..<8]))"

text \<open>
  The operator methods, and \<open>Page.ready\<close>, allocate a buffer with
  \<open>LedBuffer(width, height)\<close>. monome.py binds no name \<open>LedBuffer\<close> (the class is called
  \<open>GridBuffer\<close>), so in the module as it stands the evaluation of the name raises NameError.
  The functions below take the binding of the name as an argument: \<open>None\<close> when the name is
  unbound, which is \<open>monome_LedBuffer\<close>, the binding in monome.py; otherwise a class, that
  is, what a call with two arguments (integers or \<open>None\<close>) returns or raises.
\<close>

type_synonym buffer_class = "int option \<Rightarrow> int option \<Rightarrow> py_error + GridBuffer"

definition monome_LedBuffer :: "buffer_class option" where
  "monome_LedBuffer = None"

text \<open>
  \<^verbatim>\<open>def __and__(self, other):
    result = LedBuffer(self.width, self.height)
    for row in range(self.height):
        for col in range(self.width):
            result.levels[row][col] = self.levels[row][col] & other.levels[row][col]
    return result\<close>
  \<open>__xor__\<close> and \<open>__or__\<close> differ in the operator only. The right-hand side is evaluated
  before the store.
\<close>

definition combine_cell ::
  "(int \<Rightarrow> int \<Rightarrow> int) \<Rightarrow> GridBuffer \<Rightarrow> GridBuffer \<Rightarrow> int \<Rightarrow> int \<Rightarrow> GridBuffer \<Rightarrow> GridBuffer outcome"
where
  "combine_cell f self other row col result =
     (case get_level self col row of
        Inl e \<Rightarrow> Raised e result
      | Inr a \<Rightarrow>
          (case get_level other col row of
             Inl e \<Rightarrow> Raised e result
           | Inr b \<Rightarrow> set_level result col row (f a b)))"

definition combine ::
  "(int \<Rightarrow> int \<Rightarrow> int) \<Rightarrow> buffer_class option \<Rightarrow> GridBuffer \<Rightarrow> GridBuffer
     \<Rightarrow> py_error + GridBuffer"
where
  "combine f LedBuffer self other =
     (case LedBuffer of
        None \<Rightarrow> Inl NameError
      | Some new \<Rightarrow>
          (case new (Some (width self)) (Some (height self)) of
             Inl e \<Rightarrow> Inl e
           | Inr result \<Rightarrow>
               (case for_each
                       (\<lambda>row. for_each (combine_cell f self other row) (py_range (width self)))
                       (py_range (height self)) result of
                  Raised e r \<Rightarrow> Inl e
                | Done r \<Rightarrow> Inr r)))"

definition GridBuffer_and ::
  "buffer_class option \<Rightarrow> GridBuffer \<Rightarrow> GridBuffer \<Rightarrow> py_error + GridBuffer"
where
  "GridBuffer_and = combine (\<lambda>a b. a AND b)"

definition GridBuffer_xor ::
  "buffer_class option \<Rightarrow> GridBuffer \<Rightarrow> GridBuffer \<Rightarrow> py_error + GridBuffer"
where
  "GridBuffer_xor = combine (\<lambda>a b. a XOR b)"

definition GridBuffer_or ::
  "buffer_class option \<Rightarrow> GridBuffer \<Rightarrow> GridBuffer \<Rightarrow> py_error + GridBuffer"
where
  "GridBuffer_or = combine (\<lambda>a b. a OR b)"

text \<open>A buffer as the constructor builds it: \<open>height\<close> rows of \<open>width\<close> cells.\<close>

definition wf_buffer :: "GridBuffer \<Rightarrow> bool" where
  "wf_buffer b =
     (length (levels b) = nat (height b) \<and> list_all (\<lambda>row. length row = nat (width b)) (levels b))"

section \<open>LED commands\<close>

text \<open>
  The eleven LED methods that \<open>Grid\<close>, \<open>GridBuffer\<close>, \<open>Page\<close> and \<open>Section\<close> share,
  as values: a method call with its arguments.
\<close>

datatype led_cmd =
    LedSet int int int
  | LedAll int
  | LedMap int int "int list list"
  | LedRow int int "int list"
  | LedCol int int "int list"
  | LedIntensity int
  | LedLevelSet int int int
  | LedLevelAll int
  | LedLevelMap int int "int list list"
  | LedLevelRow int int "int list"
  | LedLevelCol int int "int list"

text \<open>
  A method call on a \<open>GridBuffer\<close>. The class has no \<open>led_intensity\<close>: the lookup of that
  attribute raises AttributeError.
\<close>

fun GridBuffer_call :: "GridBuffer \<Rightarrow> led_cmd \<Rightarrow> GridBuffer outcome" where
  "GridBuffer_call b (LedSet x y s) = led_set b x y s"
| "GridBuffer_call b (LedAll s) = led_all b s"
| "GridBuffer_call b (LedMap x_offset y_offset data) = led_map b x_offset y_offset data"
| "GridBuffer_call b (LedRow x_offset y data) = led_row b x_offset y data"
| "GridBuffer_call b (LedCol x y_offset data) = led_col b x y_offset data"
| "GridBuffer_call b (LedIntensity i) = Raised AttributeError b"
| "GridBuffer_call b (LedLevelSet x y l) = led_level_set b x y l"
| "GridBuffer_call b (LedLevelAll l) = led_level_all b l"
| "GridBuffer_call b (LedLevelMap x_offset y_offset data) = led_level_map b x_offset y_offset data"
| "GridBuffer_call b (LedLevelRow x_offset y data) = led_level_row b x_offset y data"
| "GridBuffer_call b (LedLevelCol x y_offset data) = led_level_col b x y_offset data"

text \<open>
  A sequence of calls on one buffer. Each call is made on the buffer as the previous call
  left it, whether that call returned or raised.
\<close>

definition GridBuffer_calls :: "GridBuffer \<Rightarrow> led_cmd list \<Rightarrow> GridBuffer" where
  "GridBuffer_calls b cmds = fold (\<lambda>c b'. state_of (GridBuffer_call b' c)) cmds b"

text \<open>The on/off arguments of a binary command and the level arguments of a level command.\<close>

fun binary_args :: "led_cmd \<Rightarrow> int list" where
  "binary_args (LedSet x y s) = [s]"
| "binary_args (LedAll s) = [s]"
| "binary_args (LedMap x_offset y_offset data) = concat data"
| "binary_args (LedRow x_offset y data) = data"
| "binary_args (LedCol x y_offset data) = data"
| "binary_args c = []"

fun level_args :: "led_cmd \<Rightarrow> int list" where
  "level_args (LedLevelSet x y l) = [l]"
| "level_args (LedLevelAll l) = [l]"
| "level_args (LedLevelMap x_offset y_offset data) = concat data"
| "level_args (LedLevelRow x_offset y data) = data"
| "level_args (LedLevelCol x y_offset data) = data"
| "level_args c = []"

definition level :: "int \<Rightarrow> bool" where
  "level l = (0 \<le> l \<and> l \<le> 15)"

definition levels_in_range :: "GridBuffer \<Rightarrow> bool" where
  "levels_in_range b = list_all (list_all level) (levels b)"

definition valid_cmd :: "led_cmd \<Rightarrow> bool" where
  "valid_cmd c = (list_all binary (binary_args c) \<and> list_all level (level_args c))"

fun is_binary_cmd :: "led_cmd \<Rightarrow> bool" where
  "is_binary_cmd (LedSet x y s) = True"
| "is_binary_cmd (LedAll s) = True"
| "is_binary_cmd (LedMap x_offset y_offset data) = True"
| "is_binary_cmd (LedRow x_offset y data) = True"
| "is_binary_cmd (LedCol x y_offset data) = True"
| "is_binary_cmd c = False"

text \<open>
  \<open>written_only V b b'\<close>: \<open>b'\<close> has the shape of \<open>b\<close>, and every cell of \<open>b'\<close> holds what it
  held in \<open>b\<close> or a value of \<open>V\<close>.
\<close>

definition written_only :: "int list \<Rightarrow> GridBuffer \<Rightarrow> GridBuffer \<Rightarrow> bool" where
  "written_only V b b' =
     (width b' = width b \<and> height b' = height b \<and>
      list_all2 (list_all2 (\<lambda>old new. new = old \<or> new \<in> set V)) (levels b) (levels b'))"

text \<open>
  \<open>cell_closed Q P\<close>: the property \<open>P\<close> of buffers survives the store of a value
  satisfying \<open>Q\<close> into an existing cell.
\<close>

definition cell_closed :: "(int \<Rightarrow> bool) \<Rightarrow> (GridBuffer \<Rightarrow> bool) \<Rightarrow> bool" where
  "cell_closed Q P =
     (\<forall>b r c l. P b \<and> Q l \<and> r < length (levels b) \<and> c < length (levels b ! r)
        \<longrightarrow> P (b\<lparr>levels := (levels b)[r := (levels b ! r)[c := l]]\<rparr>))"

text \<open>
  For stating what a row or column write leaves behind: \<open>write_row p ds row\<close> is \<open>row\<close>
  with \<open>ds\<close> laid over it from position \<open>p\<close>, and \<open>write_col c p ds rows\<close> is \<open>rows\<close>
  with \<open>ds\<close> laid down column \<open>c\<close> from row \<open>p\<close>.
\<close>

definition write_row :: "nat \<Rightarrow> int list \<Rightarrow> int list \<Rightarrow> int list" where
  "write_row p ds row = take p row @ ds @ drop (p + length ds) row"

definition write_col :: "nat \<Rightarrow> nat \<Rightarrow> int list \<Rightarrow> int list list \<Rightarrow> int list list" where
  "write_col c p ds rows =
     map (\<lambda>j. if p \<le> j \<and> j < p + length ds then (rows ! j)[c := ds ! (j - p)] else rows ! j)
       [0..<length rows]"

text \<open>The position that Python's indexing gives an index \<open>i\<close> with \<open>-n \<le> i < n\<close>.\<close>

definition wrapped :: "int \<Rightarrow> int \<Rightarrow> nat" where
  "wrapped n i = nat (if i < 0 then n + i else i)"

text \<open>\<open>same_shape b s\<close>: \<open>s\<close> is well formed with the dimensions of \<open>b\<close>.\<close>

definition same_shape :: "GridBuffer \<Rightarrow> GridBuffer \<Rightarrow> bool" where
  "same_shape b s = (wf_buffer s \<and> width s = width b \<and> height s = height b)"

text \<open>The levels that an elementwise combination of two buffers should have.\<close>

definition combined_levels ::
  "(int \<Rightarrow> int \<Rightarrow> int) \<Rightarrow> GridBuffer \<Rightarrow> GridBuffer \<Rightarrow> int list list"
where
  "combined_levels f self other =
     map (\<lambda>row. map (\<lambda>col. f (levels self ! row ! col) (levels other ! row ! col))
                  [0..<nat (width self)])
       [0..<nat (height self)]"

section \<open>Grid: the link to one device\<close>

text \<open>\<^verbatim>\<open>DISCONNECTED, CONNECTING, READY = range(3)\<close>\<close>

datatype conn_state = DISCONNECTED | CONNECTING | READY

text \<open>
  What leaves the model: the OSC messages handed to \<open>send\<close> (a path and, for the LED
  commands, integer arguments) and the calls made on the listener in \<open>event_handler\<close>.
\<close>

type_synonym osc_msg = "string \<times> int list"

datatype listener_call = OnGridReady | OnGridKey int int int | OnGridDisconnect

text \<open>
  The fields of \<open>Grid.__init__\<close>. \<open>event_handler\<close> is a reference to the listener or
  \<open>None\<close>; \<open>transport_closed\<close> records \<open>self.transport.close()\<close>; \<open>sent\<close> and \<open>notified\<close>
  are the two traces.
\<close>

record Grid =
  prefix :: string
  grid_id :: "string option"
  grid_width :: "int option"
  grid_height :: "int option"
  varibright :: bool
  state :: conn_state
  event_handler :: "nat option"
  transport_closed :: bool
  sent :: "osc_msg list"
  notified :: "(nat \<times> listener_call) list"

text \<open>\<open>prefix.strip('/')\<close>\<close>

definition strip_slashes :: "string \<Rightarrow> string" where
  "strip_slashes s =
     rev (dropWhile (\<lambda>c. c = CHR ''/'') (rev (dropWhile (\<lambda>c. c = CHR ''/'') s)))"

definition Grid_init :: "string \<Rightarrow> Grid" where
  "Grid_init p =
     \<lparr>prefix = strip_slashes p, grid_id = None, grid_width = None, grid_height = None,
      varibright = True, state = DISCONNECTED, event_handler = None, transport_closed = False,
      sent = [], notified = []\<rparr>"

definition send :: "'a Grid_scheme \<Rightarrow> string \<Rightarrow> int list \<Rightarrow> 'a Grid_scheme" where
  "send g path args = g\<lparr>sent := sent g @ [(path, args)]\<rparr>"

text \<open>\<open>'/{}/grid/led/set'.format(self.prefix)\<close> and its like.\<close>

definition led_path :: "'a Grid_scheme \<Rightarrow> string \<Rightarrow> string" where
  "led_path g suffix = ''/'' @ prefix g @ suffix"

text \<open>
  \<^verbatim>\<open>def __sys_disconnect(self):
    self.state = DISCONNECTED
    self.transport.close()
    if self.event_handler is not None:
        self.event_handler.on_grid_ready()\<close>
\<close>

definition Grid_sys_disconnect :: "'a Grid_scheme \<Rightarrow> 'a Grid_scheme" where
  "Grid_sys_disconnect g =
     (let g' = g\<lparr>state := DISCONNECTED, transport_closed := True\<rparr>
      in case event_handler g' of
           None \<Rightarrow> g'
         | Some h \<Rightarrow> g'\<lparr>notified := notified g' @ [(h, OnGridReady)]\<rparr>)"

text \<open>
  \<^verbatim>\<open>def __grid_key(self, addr, path, x, y, s):
    if self.event_handler is not None:
        self.event_handler.on_grid_key(x, y, s)\<close>
\<close>

definition Grid_grid_key :: "'a Grid_scheme \<Rightarrow> int \<Rightarrow> int \<Rightarrow> int \<Rightarrow> 'a Grid_scheme" where
  "Grid_grid_key g x y s =
     (case event_handler g of
        None \<Rightarrow> g
      | Some h \<Rightarrow> g\<lparr>notified := notified g @ [(h, OnGridKey x y s)]\<rparr>)"

text \<open>
  The handler table of \<open>Grid.__init__\<close>, for the messages modelled here:
  \<^verbatim>\<open>'/sys/connect': lambda *args: self.__sys_connect,
'/sys/disconnect': lambda *args: self.__sys_disconnect,
'/{}/grid/key'.format(self.prefix): self.__grid_key,\<close>
  The protocol base class calls the registered handler with the address, the path and the
  message's arguments. The handlers of \<open>/sys/connect\<close> and \<open>/sys/disconnect\<close> are lambdas whose
  body is the bound method itself, not a call of it: calling the lambda evaluates the
  attribute and returns it, and the method does not run. (The entries for the
  \<open>/sys/{id,size,...}\<close> replies and for tilt are not modelled.)
\<close>

datatype inbound = SysConnect | SysDisconnect | GridKey int int int

fun Grid_receive :: "'a Grid_scheme \<Rightarrow> inbound \<Rightarrow> 'a Grid_scheme" where
  "Grid_receive g SysConnect = g"
| "Grid_receive g SysDisconnect = g"
| "Grid_receive g (GridKey x y s) = Grid_grid_key g x y s"

text \<open>
  The command encoder.
  \<^verbatim>\<open>def led_set(self, x, y, s):
    self.send('/{}/grid/led/set'.format(self.prefix), x, y, s)
def led_all(self, s):
    self.send('/{}/grid/led/all'.format(self.prefix), s)
def led_map(self, x_offset, y_offset, data):
    args = [pack_row(data[i]) for i in range(8)]
    self.send('/{}/grid/led/map'.format(self.prefix), x_offset, y_offset, *args)
def led_row(self, x_offset, y, data):
    args = [pack_row(data[i*8:(i+1)*8]) for i in range(len(data) // 8)]
    self.send('/{}/grid/led/row'.format(self.prefix), x_offset, y, *args)
def led_col(self, x, y_offset, data):
    args = [pack_row(data[i*8:(i+1)*8]) for i in range(len(data) // 8)]
    self.send('/{}/grid/led/col'.format(self.prefix), x, y_offset, *args)
def led_intensity(self, i):
    self.send('/{}/grid/led/intensity'.format(self.prefix), i)\<close>
\<close>

definition Grid_led_set :: "'a Grid_scheme \<Rightarrow> int \<Rightarrow> int \<Rightarrow> int \<Rightarrow> 'a Grid_scheme outcome" where
  "Grid_led_set g x y s = Done (send g (led_path g ''/grid/led/set'') [x, y, s])"

definition Grid_led_all :: "'a Grid_scheme \<Rightarrow> int \<Rightarrow> 'a Grid_scheme outcome" where
  "Grid_led_all g s = Done (send g (led_path g ''/grid/led/all'') [s])"

definition Grid_led_map ::
  "'a Grid_scheme \<Rightarrow> int \<Rightarrow> int \<Rightarrow> int list list \<Rightarrow> 'a Grid_scheme outcome" where
  "Grid_led_map g x_offset y_offset data =
     (case collect (map (\<lambda>i. case py_get data i of Inl e \<Rightarrow> Inl e | Inr row \<Rightarrow> pack_row row)
                     (py_range 8)) of
        Inl e \<Rightarrow> Raised e g
      | Inr args \<Rightarrow> Done (send g (led_path g ''/grid/led/map'') (x_offset # y_offset # args)))"

text \<open>\<open>data[i*8:(i+1)*8]\<close> for \<open>i < len(data) // 8\<close> is a full group of eight.\<close>

definition packed_groups :: "int list \<Rightarrow> py_error + int list" where
  "packed_groups data =
     collect (map (\<lambda>i. pack_row (take 8 (drop (i * 8) data))) [0..<length data div 8])"

definition Grid_led_row ::
  "'a Grid_scheme \<Rightarrow> int \<Rightarrow> int \<Rightarrow> int list \<Rightarrow> 'a Grid_scheme outcome" where
  "Grid_led_row g x_offset y data =
     (case packed_groups data of
        Inl e \<Rightarrow> Raised e g
      | Inr args \<Rightarrow> Done (send g (led_path g ''/grid/led/row'') (x_offset # y # args)))"

definition Grid_led_col ::
  "'a Grid_scheme \<Rightarrow> int \<Rightarrow> int \<Rightarrow> int list \<Rightarrow> 'a Grid_scheme outcome" where
  "Grid_led_col g x y_offset data =
     (case packed_groups data of
        Inl e \<Rightarrow> Raised e g
      | Inr args \<Rightarrow> Done (send g (led_path g ''/grid/led/col'') (x # y_offset # args)))"

definition Grid_led_intensity :: "'a Grid_scheme \<Rightarrow> int \<Rightarrow> 'a Grid_scheme outcome" where
  "Grid_led_intensity g i = Done (send g (led_path g ''/grid/led/intensity'') [i])"

text \<open>
  The level commands are sent as they are to a varibright device and downgraded through
  \<open>l >> 3 & 1\<close> otherwise:
  \<^verbatim>\<open>def led_level_set(self, x, y, l):
    if self.varibright:
        self.send('/{}/grid/led/level/set'.format(self.prefix), x, y, l)
    else:
        self.led_set(x, y, l >> 3 & 1)
def led_level_all(self, l):
    if self.varibright: self.send('/{}/grid/led/level/all'.format(self.prefix), l)
    else: self.led_all(l >> 3 & 1)
def led_level_map(self, x_offset, y_offset, data):
    if self.varibright:
        args = itertools.chain(*data)
        self.send('/{}/grid/led/level/map'.format(self.prefix), x_offset, y_offset, *args)
    else:
        self.led_map(x_offset, y_offset, [[l >> 3 & 1 for l in row] for row in data])
def led_level_row(self, x_offset, y, data):
    if self.varibright:
        self.send('/{}/grid/led/level/row'.format(self.prefix), x_offset, y, *data)
    else:
        self.led_row(x_offset, y, [l >> 3 & 1 for l in data])
def led_level_col(self, x, y_offset, data):
    if self.varibright:
        self.send('/{}/grid/led/level/col'.format(self.prefix), x, y_offset, *data)
    else:
        self.led_col(x, y_offset, [l >> 3 & 1 for l in data])\<close>
\<close>

definition downgrade :: "int \<Rightarrow> int" where
  "downgrade l = drop_bit 3 l AND 1"

definition Grid_led_level_set :: "'a Grid_scheme \<Rightarrow> int \<Rightarrow> int \<Rightarrow> int \<Rightarrow> 'a Grid_scheme outcome" where
  "Grid_led_level_set g x y l =
     (if varibright g then Done (send g (led_path g ''/grid/led/level/set'') [x, y, l])
      else Grid_led_set g x y (downgrade l))"

definition Grid_led_level_all :: "'a Grid_scheme \<Rightarrow> int \<Rightarrow> 'a Grid_scheme outcome" where
  "Grid_led_level_all g l =
     (if varibright g then Done (send g (led_path g ''/grid/led/level/all'') [l])
      else Grid_led_all g (downgrade l))"

definition Grid_led_level_map ::
  "'a Grid_scheme \<Rightarrow> int \<Rightarrow> int \<Rightarrow> int list list \<Rightarrow> 'a Grid_scheme outcome" where
  "Grid_led_level_map g x_offset y_offset data =
     (if varibright g
      then Done (send g (led_path g ''/grid/led/level/map'') (x_offset # y_offset # concat data))
      else Grid_led_map g x_offset y_offset (map (map downgrade) data))"

definition Grid_led_level_row ::
  "'a Grid_scheme \<Rightarrow> int \<Rightarrow> int \<Rightarrow> int list \<Rightarrow> 'a Grid_scheme outcome" where
  "Grid_led_level_row g x_offset y data =
     (if varibright g
      then Done (send g (led_path g ''/grid/led/level/row'') (x_offset # y # data))
      else Grid_led_row g x_offset y (map downgrade data))"

definition Grid_led_level_col ::
  "'a Grid_scheme \<Rightarrow> int \<Rightarrow> int \<Rightarrow> int list \<Rightarrow> 'a Grid_scheme outcome" where
  "Grid_led_level_col g x y_offset data =
     (if varibright g
      then Done (send g (led_path g ''/grid/led/level/col'') (x # y_offset # data))
      else Grid_led_col g x y_offset (map downgrade data))"

text \<open>A method call on a \<open>Grid\<close> (or on an object of a class derived from it).\<close>

fun Grid_call :: "'a Grid_scheme \<Rightarrow> led_cmd \<Rightarrow> 'a Grid_scheme outcome" where
  "Grid_call g (LedSet x y s) = Grid_led_set g x y s"
| "Grid_call g (LedAll s) = Grid_led_all g s"
| "Grid_call g (LedMap x_offset y_offset data) = Grid_led_map g x_offset y_offset data"
| "Grid_call g (LedRow x_offset y data) = Grid_led_row g x_offset y data"
| "Grid_call g (LedCol x y_offset data) = Grid_led_col g x y_offset data"
| "Grid_call g (LedIntensity i) = Grid_led_intensity g i"
| "Grid_call g (LedLevelSet x y l) = Grid_led_level_set g x y l"
| "Grid_call g (LedLevelAll l) = Grid_led_level_all g l"
| "Grid_call g (LedLevelMap x_offset y_offset data) = Grid_led_level_map g x_offset y_offset data"
| "Grid_call g (LedLevelRow x_offset y data) = Grid_led_level_row g x_offset y data"
| "Grid_call g (LedLevelCol x y_offset data) = Grid_led_level_col g x y_offset data"

text \<open>
  \<^verbatim>\<open>def render(self, grid):
    for x_offset in [i * 8 for i in range(self.width // 8)]:
        for y_offset in [i * 8 for i in range(self.height // 8)]:
            grid.led_level_map(x_offset, y_offset, self.get_level_map(x_offset, y_offset))\<close>
  \<open>GridBuffer.render\<close> reads the buffer and writes to the grid, which is the state here.
\<close>

definition GridBuffer_render :: "GridBuffer \<Rightarrow> 'a Grid_scheme \<Rightarrow> 'a Grid_scheme outcome" where
  "GridBuffer_render b g =
     for_each
       (\<lambda>x_offset. for_each
          (\<lambda>y_offset g'. case get_level_map b x_offset y_offset of
                            Inl e \<Rightarrow> Raised e g'
                          | Inr data \<Rightarrow> Grid_led_level_map g' x_offset y_offset data)
          (map (\<lambda>i. i * 8) (py_range (height b div 8))))
       (map (\<lambda>i. i * 8) (py_range (width b div 8))) g"

section \<open>Section and Splitter\<close>

text \<open>
  \<^verbatim>\<open>class Section:
    def __init__(self, splitter, size, offset):
        self.splitter = splitter
        self.part_width = size[0]
        self.part_height = size[1]
        self.part_offset_x = offset[0]
        self.part_offset_y = offset[1]\<close>
\<close>

record Section =
  part_width :: int
  part_height :: int
  part_offset_x :: int
  part_offset_y :: int



text \<open>
  The test of \<open>Splitter.grid_key\<close>:
  \<^verbatim>\<open>part.part_offset_x <= x < part.part_offset_x + part.part_width and \
part.part_offset_y <= y < part.part_offset_y + part.part_height\<close>
\<close>

definition Section_contains :: "Section \<Rightarrow> int \<Rightarrow> int \<Rightarrow> bool" where
  "Section_contains part x y =
     (part_offset_x part \<le> x \<and> x < part_offset_x part + part_width part \<and>
      part_offset_y part \<le> y \<and> y < part_offset_y part + part_height part)"


text \<open>
  \<^verbatim>\<open>def grid_key(self, x, y, s):
    for part in self.sections:
        if part.part_offset_x <= x < part.part_offset_x + part.part_width and \
           part.part_offset_y <= y < part.part_offset_y + part.part_height:
            part.grid_key(x - part.part_offset_x, y - part.part_offset_y, s)\<close>
  \<open>Section\<close> defines no \<open>grid_key\<close>: the handler is the application's. The model records
  the calls: which section (its position in \<open>sections\<close>) was called with which arguments.
  \<open>dispatch_from i\<close> is the loop over the sections from position \<open>i\<close> on.
\<close>

fun dispatch_from :: "nat \<Rightarrow> Section list \<Rightarrow> int \<Rightarrow> int \<Rightarrow> int \<Rightarrow> (nat \<times> int \<times> int \<times> int) list" where
  "dispatch_from i [] x y s = []"
| "dispatch_from i (part # parts) x y s =
     (if Section_contains part x y
      then (i, x - part_offset_x part, y - part_offset_y part, s) # dispatch_from (Suc i) parts x y s
      else dispatch_from (Suc i) parts x y s)"

definition Splitter_grid_key :: "Section list \<Rightarrow> int \<Rightarrow> int \<Rightarrow> int \<Rightarrow> (nat \<times> int \<times> int \<times> int) list" where
  "Splitter_grid_key sections x y s = dispatch_from 0 sections x y s"

text \<open>
  Two sections overlap when their rectangles share a cell; a list of sections is
  non-overlapping when no two of its members do.
\<close>

definition overlap :: "Section \<Rightarrow> Section \<Rightarrow> bool" where
  "overlap a b =
     (max (part_offset_x a) (part_offset_x b)
        < min (part_offset_x a + part_width a) (part_offset_x b + part_width b) \<and>
      max (part_offset_y a) (part_offset_y b)
        < min (part_offset_y a + part_height a) (part_offset_y b + part_height b))"

fun non_overlapping :: "Section list \<Rightarrow> bool" where
  "non_overlapping [] = True"
| "non_overlapping (a # rest) = (list_all (\<lambda>b. \<not> overlap a b) rest \<and> non_overlapping rest)"

section \<open>Page and the page managers\<close>

text \<open>
  \<^verbatim>\<open>class Page:
    def __init__(self, manager):
        self.manager = manager
        self.__buffer = None
        self.__intensity = 15\<close>
  \<open>width\<close> and \<open>height\<close> are assigned by the manager's \<open>ready\<close>, from the manager's own
  \<open>width\<close> and \<open>height\<close>, which are \<open>None\<close> until the device has reported its size.
\<close>

record Page =
  buffer :: "GridBuffer option"
  intensity :: int
  page_width :: "int option"
  page_height :: "int option"

definition Page_init :: Page where
  "Page_init = \<lparr>buffer = None, intensity = 15, page_width = None, page_height = None\<rparr>"

text \<open>
  \<^verbatim>\<open>def ready(self):
    self.__buffer = LedBuffer(self.width, self.height)\<close>
  The name \<open>LedBuffer\<close> is evaluated first, then the class is called; when either raises,
  \<open>__buffer\<close> keeps its value.
\<close>

definition Page_ready :: "buffer_class option \<Rightarrow> Page \<Rightarrow> Page outcome" where
  "Page_ready LedBuffer pg =
     (case LedBuffer of
        None \<Rightarrow> Raised NameError pg
      | Some new \<Rightarrow>
          (case new (page_width pg) (page_height pg) of
             Inl e \<Rightarrow> Raised e pg
           | Inr b \<Rightarrow> Done (pg\<lparr>buffer := Some b\<rparr>)))"

text \<open>
  \<^verbatim>\<open>def render(self):
    self.__buffer.render(self.manager)
    self.manager.led_intensity(self.__intensity)\<close>
  The manager is a \<open>Grid\<close>; it is the state that \<open>render\<close> changes.
\<close>

definition Page_render :: "Page \<Rightarrow> 'a Grid_scheme \<Rightarrow> 'a Grid_scheme outcome" where
  "Page_render pg g =
     (case buffer pg of
        None \<Rightarrow> Raised AttributeError g
      | Some b \<Rightarrow>
          (case GridBuffer_render b g of
             Raised e g' \<Rightarrow> Raised e g'
           | Done g' \<Rightarrow> Grid_led_intensity g' (intensity pg)))"

text \<open>
  \<^verbatim>\<open>class BasePageManager(Grid):
    def __init__(self, pages, **kwargs):
        super().__init__(**kwargs)
        self.pages = pages
        self._presses = set()
        self.current_page = self.pages[0]\<close>
  A page is an object: \<open>pages\<close> and \<open>current_page\<close> hold references (numbers), compared with
  \<open>is\<close>, and \<open>page_obj\<close> is the store that gives each reference its object. \<open>presses\<close>
  is the set \<open>_presses\<close>. No page class of the library defines \<open>grid_key\<close>: the handler is
  the application's, and \<open>delivered\<close> records the calls made on it (the page and the
  arguments).
\<close>

record BasePageManager = Grid +
  pages :: "nat list"
  presses :: "(int \<times> int) set"
  current_page :: "nat option"
  page_obj :: "nat \<Rightarrow> Page"
  delivered :: "(nat \<times> int \<times> int \<times> int) list"

definition deliver ::
  "'a BasePageManager_scheme \<Rightarrow> nat \<Rightarrow> int \<Rightarrow> int \<Rightarrow> int \<Rightarrow> 'a BasePageManager_scheme" where
  "deliver m p x y s = m\<lparr>delivered := delivered m @ [(p, x, y, s)]\<rparr>"

text \<open>
  \<^verbatim>\<open>def grid_key(self, x, y, s):
    if s == 1:
        self._presses.add((x, y))
    else:
        self._presses.discard((x, y))
    self.current_page.grid_key(x, y, s)\<close>
\<close>

definition BasePageManager_grid_key ::
  "'a BasePageManager_scheme \<Rightarrow> int \<Rightarrow> int \<Rightarrow> int \<Rightarrow> 'a BasePageManager_scheme outcome" where
  "BasePageManager_grid_key m x y s =
     (let m' = (if s = 1 then m\<lparr>presses := insert (x, y) (presses m)\<rparr>
                else m\<lparr>presses := presses m - {(x, y)}\<rparr>)
      in case current_page m' of
           None \<Rightarrow> Raised AttributeError m'
         | Some p \<Rightarrow> Done (deliver m' p x y s))"

text \<open>
  \<^verbatim>\<open>def switch_page(self, page_num):
    # send key-ups to previously active page
    if page_num == -1 or self.pages[page_num] is not self.current_page:
        for x, y in self._presses:
            self.current_page.grid_key(x, y, 0)
        self._presses.clear()

    if page_num == -1:
        self.current_page = None
        self.led_all(0)
    else:
        # render current page
        self.current_page = self.pages[page_num]
        self.current_page.render()\<close>
  The loop iterates over a set. The order in which Python yields the members of a set is
  that of its hash table, which the language leaves to the implementation: the functions
  take it as their first argument, \<open>iter\<close>, which gives for a set the list of its members
  as the iteration yields them. \<open>iterates iter S\<close> says what every iteration satisfies:
  each member of \<open>S\<close> is yielded once, and nothing else.
\<close>

type_synonym set_order = "(int \<times> int) set \<Rightarrow> (int \<times> int) list"

definition iterates :: "set_order \<Rightarrow> (int \<times> int) set \<Rightarrow> bool" where
  "iterates iter S = (set (iter S) = S \<and> distinct (iter S))"

definition release_presses ::
  "set_order \<Rightarrow> 'a BasePageManager_scheme \<Rightarrow> 'a BasePageManager_scheme outcome" where
  "release_presses iter m =
     (case for_each (\<lambda>(x, y) m'. case current_page m' of
                                     None \<Rightarrow> Raised AttributeError m'
                                   | Some p \<Rightarrow> Done (deliver m' p x y 0))
             (iter (presses m)) m of
        Raised e m' \<Rightarrow> Raised e m'
      | Done m' \<Rightarrow> Done (m'\<lparr>presses := {}\<rparr>))"

definition switch_page ::
  "set_order \<Rightarrow> 'a BasePageManager_scheme \<Rightarrow> int \<Rightarrow> 'a BasePageManager_scheme outcome" where
  "switch_page iter m page_num =
     (case (if page_num = -1 then Inr True
            else case py_get (pages m) page_num of
                   Inl e \<Rightarrow> Inl e
                 | Inr p \<Rightarrow> Inr (Some p \<noteq> current_page m)) of
        Inl e \<Rightarrow> Raised e m
      | Inr differs \<Rightarrow>
          (case (if differs then release_presses iter m else Done m) of
             Raised e m' \<Rightarrow> Raised e m'
           | Done m' \<Rightarrow>
               if page_num = -1 then Grid_led_all (m'\<lparr>current_page := None\<rparr>) 0
               else (case py_get (pages m') page_num of
                       Inl e \<Rightarrow> Raised e m'
                     | Inr p \<Rightarrow> Page_render (page_obj m' p) (m'\<lparr>current_page := Some p\<rparr>))))"

text \<open>
  The LED methods of a page, for example
  \<^verbatim>\<open>def led_set(self, x, y, s):
    self.__buffer.led_set(x, y, s)
    if self.is_active():
        self.manager.led_set(x, y, s)
def led_intensity(self, i):
    self.__intensity = i
    if self.is_active():
        self.manager.led_intensity(i)
def is_active(self):
    return self is self.manager.current_page\<close>
  The ten methods other than \<open>led_intensity\<close> have the shape of \<open>led_set\<close>, each with the
  method of its own name on the buffer and on the manager. \<open>Page_call m p cmd\<close> is the call
  of \<open>cmd\<close> on the page \<open>p\<close> of the manager \<open>m\<close>.
\<close>

definition set_buffer :: "'a BasePageManager_scheme \<Rightarrow> nat \<Rightarrow> GridBuffer \<Rightarrow> 'a BasePageManager_scheme" where
  "set_buffer m p b = m\<lparr>page_obj := (page_obj m)(p := (page_obj m p)\<lparr>buffer := Some b\<rparr>)\<rparr>"

definition Page_led ::
  "'a BasePageManager_scheme \<Rightarrow> nat \<Rightarrow> led_cmd \<Rightarrow> 'a BasePageManager_scheme outcome" where
  "Page_led m p cmd =
     (case buffer (page_obj m p) of
        None \<Rightarrow> Raised AttributeError m
      | Some b \<Rightarrow>
          (case GridBuffer_call b cmd of
             Raised e b' \<Rightarrow> Raised e (set_buffer m p b')
           | Done b' \<Rightarrow>
               if current_page (set_buffer m p b') = Some p then Grid_call (set_buffer m p b') cmd
               else Done (set_buffer m p b')))"

definition Page_led_intensity ::
  "'a BasePageManager_scheme \<Rightarrow> nat \<Rightarrow> int \<Rightarrow> 'a BasePageManager_scheme outcome" where
  "Page_led_intensity m p i =
     (let m' = m\<lparr>page_obj := (page_obj m)(p := (page_obj m p)\<lparr>intensity := i\<rparr>)\<rparr>
      in if current_page m' = Some p then Grid_led_intensity m' i else Done m')"

definition Page_call ::
  "'a BasePageManager_scheme \<Rightarrow> nat \<Rightarrow> led_cmd \<Rightarrow> 'a BasePageManager_scheme outcome" where
  "Page_call m p cmd =
     (case cmd of LedIntensity i \<Rightarrow> Page_led_intensity m p i | _ \<Rightarrow> Page_led m p cmd)"

text \<open>
  \<^verbatim>\<open>def ready(self):
    super().ready()
    for page in self.pages:
        page.width = self.width
        page.height = self.height
        page.ready()\<close>
  \<open>Grid\<close> defines no method \<open>ready\<close> (only the private \<open>__ready\<close>), and the protocol class
  under it has none: in the module as it stands, \<open>super().ready()\<close> raises AttributeError,
  which is \<open>Grid_ready_missing\<close>. The functions take what that call does as their first
  argument.
\<close>

definition Grid_ready_missing :: "'m \<Rightarrow> 'm outcome" where
  "Grid_ready_missing m = Raised AttributeError m"

definition BasePageManager_ready ::
  "('a BasePageManager_scheme \<Rightarrow> 'a BasePageManager_scheme outcome) \<Rightarrow> buffer_class option
     \<Rightarrow> 'a BasePageManager_scheme \<Rightarrow> 'a BasePageManager_scheme outcome" where
  "BasePageManager_ready Grid_ready LedBuffer m =
     (case Grid_ready m of
        Raised e m' \<Rightarrow> Raised e m'
      | Done m' \<Rightarrow>
          for_each
            (\<lambda>p m''. case Page_ready LedBuffer
                            ((page_obj m'' p)\<lparr>page_width := grid_width m'',
                                              page_height := grid_height m''\<rparr>) of
                        Raised e pg \<Rightarrow> Raised e (m''\<lparr>page_obj := (page_obj m'')(p := pg)\<rparr>)
                      | Done pg \<Rightarrow> Done (m''\<lparr>page_obj := (page_obj m'')(p := pg)\<rparr>))
            (pages m') m')"

text \<open>
  \<^verbatim>\<open>class SeqPageManager(BasePageManager):
    def __init__(self, pages, switch_button=(-1, -1), **kwargs):
        super().__init__(pages, **kwargs)
        self.switch_button = switch_button

    def ready(self):
        super().ready()
        switch_x, switch_y = self.switch_button
        self.switch_x = self.width + switch_x if switch_x < 0 else switch_x
        self.switch_y = self.height + switch_y if switch_y < 0 else switch_y\<close>
  \<open>switch_x\<close> and \<open>switch_y\<close> do not exist before \<open>ready\<close> has set them (\<open>None\<close> here).
\<close>

record SeqPageManager = BasePageManager +
  switch_button :: "int \<times> int"
  switch_x :: "int option"
  switch_y :: "int option"

definition SeqPageManager_init ::
  "string \<Rightarrow> nat list \<Rightarrow> (nat \<Rightarrow> Page) \<Rightarrow> int \<times> int \<Rightarrow> py_error + SeqPageManager" where
  "SeqPageManager_init p ps objs button =
     (case py_get ps 0 of
        Inl e \<Rightarrow> Inl e
      | Inr first \<Rightarrow>
          Inr \<lparr>prefix = strip_slashes p, grid_id = None, grid_width = None, grid_height = None,
               varibright = True, state = DISCONNECTED, event_handler = None,
               transport_closed = False, sent = [], notified = [],
               pages = ps, presses = {}, current_page = Some first, page_obj = objs,
               delivered = [], switch_button = button, switch_x = None, switch_y = None\<rparr>)"

text \<open>
  \<open>extent + c if c < 0 else c\<close>, where \<open>extent\<close> (the width or the height) may still be
  \<open>None\<close>, which cannot be added to.
\<close>

definition from_far_edge :: "int option \<Rightarrow> int \<Rightarrow> py_error + int" where
  "from_far_edge extent c =
     (if c < 0 then (case extent of None \<Rightarrow> Inl TypeError | Some n \<Rightarrow> Inr (n + c)) else Inr c)"

definition SeqPageManager_ready ::
  "('a SeqPageManager_scheme \<Rightarrow> 'a SeqPageManager_scheme outcome) \<Rightarrow> buffer_class option
     \<Rightarrow> 'a SeqPageManager_scheme \<Rightarrow> 'a SeqPageManager_scheme outcome" where
  "SeqPageManager_ready Grid_ready LedBuffer m =
     (case BasePageManager_ready Grid_ready LedBuffer m of
        Raised e m' \<Rightarrow> Raised e m'
      | Done m' \<Rightarrow>
          (case from_far_edge (grid_width m') (fst (switch_button m')) of
             Inl e \<Rightarrow> Raised e m'
           | Inr sx \<Rightarrow>
               (case from_far_edge (grid_height m') (snd (switch_button m')) of
                  Inl e \<Rightarrow> Raised e (m'\<lparr>switch_x := Some sx\<rparr>)
                | Inr sy \<Rightarrow> Done (m'\<lparr>switch_x := Some sx, switch_y := Some sy\<rparr>))))"

text \<open>\<open>xs.index(v)\<close>: the first position that holds \<open>v\<close>; ValueError when there is none.\<close>

fun index_of :: "'a list \<Rightarrow> 'a \<Rightarrow> nat option" where
  "index_of [] v = None"
| "index_of (x # xs) v = (if x = v then Some 0 else map_option Suc (index_of xs v))"

text \<open>
  \<^verbatim>\<open>def grid_key(self, x, y, s):
    if not self._presses and \
       x == self.switch_x and \
       y == self.switch_y and \
       s == 1:
        self.switch_page((self.pages.index(self.current_page) + 1) % len(self.pages))
    else:
        super().grid_key(x, y, s)\<close>
  The conjunction is evaluated from the left and stops at the first false operand.
\<close>

definition next_page ::
  "set_order \<Rightarrow> 'a SeqPageManager_scheme \<Rightarrow> 'a SeqPageManager_scheme outcome" where
  "next_page iter m =
     (case current_page m of
        None \<Rightarrow> Raised ValueError m
      | Some p \<Rightarrow>
          (case index_of (pages m) p of
             None \<Rightarrow> Raised ValueError m
           | Some i \<Rightarrow> switch_page iter m ((int i + 1) mod int (length (pages m)))))"

definition SeqPageManager_grid_key ::
  "set_order \<Rightarrow> 'a SeqPageManager_scheme \<Rightarrow> int \<Rightarrow> int \<Rightarrow> int
     \<Rightarrow> 'a SeqPageManager_scheme outcome" where
  "SeqPageManager_grid_key iter m x y s =
     (if presses m = {} then
        (case switch_x m of
           None \<Rightarrow> Raised AttributeError m
         | Some sx \<Rightarrow>
             if x = sx then
               (case switch_y m of
                  None \<Rightarrow> Raised AttributeError m
                | Some sy \<Rightarrow>
                    if y = sy \<and> s = 1 then next_page iter m
                    else BasePageManager_grid_key m x y s)
             else BasePageManager_grid_key m x y s)
      else BasePageManager_grid_key m x y s)"

text \<open>
  \<open>unsent g\<close> is \<open>g\<close> without its trace of sent messages: two states with the same
  \<open>unsent\<close> differ in what has been sent only.
\<close>

definition unsent :: "'a Grid_scheme \<Rightarrow> 'a Grid_scheme" where
  "unsent g = g\<lparr>sent := []\<rparr>"

section \<open>Row packing is the binary expansion\<close>

lemma list_of_length_8:
  "length (row :: 'a list) = 8 \<Longrightarrow> \<exists>a b c d e f g h. row = [a, b, c, d, e, f, g, h]"
  by (auto simp: length_Suc_conv eval_nat_numeral)

lemma pack_row_8:
  "pack_row [a, b, c, d, e, f, g, h] =
     Inr (push_bit 7 h OR push_bit 6 g OR push_bit 5 f OR push_bit 4 e OR
          push_bit 3 d OR push_bit 2 c OR push_bit 1 b OR a)"
  by (simp add: pack_row_def)

lemma unpack_row_bits: "unpack_row n = map (\<lambda>i. of_bool (bit n i)) [0..<8]"
  by (simp add: unpack_row_def and_one_eq bit_iff_odd_drop_bit of_bool_odd_eq_mod_2)

lemma unpack_row_8:
  "unpack_row n = [of_bool (bit n 0), of_bool (bit n 1), of_bool (bit n 2), of_bool (bit n 3),
     of_bool (bit n 4), of_bool (bit n 5), of_bool (bit n 6), of_bool (bit n 7)]"
  by (simp add: unpack_row_bits upt_rec eval_nat_numeral)

lemma binary_row_unpack: "binary_row (unpack_row n)"
  by (simp add: unpack_row_bits binary_row_def binary_def list_all_iff)

lemma binary_of_bool: "binary v \<Longrightarrow> v = of_bool (v = 1)"
  by (auto simp: binary_def)

text \<open>A bit placed above a number that fits below it: \<open>OR\<close> is addition.\<close>

lemma push_bit_or_below:
  assumes "binary a" "0 \<le> x" "x < 2 ^ k"
  shows "push_bit k a OR x = a * 2 ^ k + x \<and> 0 \<le> a * 2 ^ k + x \<and> a * 2 ^ k + x < 2 * 2 ^ k"
proof -
  have "push_bit k a OR x = push_bit k a + x"
  proof (rule disjunctive_add_eq_or [symmetric])
    have "take_bit k x = x"
      using assms by (simp add: take_bit_int_eq_self)
    moreover have "push_bit k a AND take_bit k x = 0"
      by (simp add: bit_eq_iff bit_simps)
    ultimately show "push_bit k a AND x = 0"
      by simp
  qed
  then show ?thesis
    using assms by (auto simp: push_bit_eq_mult binary_def)
qed

lemma pack_sum_8:
  assumes "binary a" "binary b" "binary c" "binary d" "binary e" "binary f" "binary g" "binary h"
  shows "push_bit 7 h OR push_bit 6 g OR push_bit 5 f OR push_bit 4 e OR
          push_bit 3 d OR push_bit 2 c OR push_bit 1 b OR a
         = 128 * h + (64 * g + (32 * f + (16 * e + (8 * d + (4 * c + (2 * b + a))))))"
    and "0 \<le> 128 * h + (64 * g + (32 * f + (16 * e + (8 * d + (4 * c + (2 * b + a))))))"
    and "128 * h + (64 * g + (32 * f + (16 * e + (8 * d + (4 * c + (2 * b + a)))))) < 256"
proof -
  let ?x1 = "2 * b + a"
  let ?x2 = "4 * c + ?x1"
  let ?x3 = "8 * d + ?x2"
  let ?x4 = "16 * e + ?x3"
  let ?x5 = "32 * f + ?x4"
  let ?x6 = "64 * g + ?x5"
  let ?x7 = "128 * h + ?x6"
  have s0: "0 \<le> a \<and> a < 2"
    using assms(1) by (auto simp: binary_def)
  have s1: "push_bit 1 b OR a = ?x1 \<and> 0 \<le> ?x1 \<and> ?x1 < 4"
    using push_bit_or_below [of b a 1] assms(2) s0 by simp
  have s2: "push_bit 2 c OR ?x1 = ?x2 \<and> 0 \<le> ?x2 \<and> ?x2 < 8"
    using push_bit_or_below [of c ?x1 2] assms(3) s1 by simp
  have s3: "push_bit 3 d OR ?x2 = ?x3 \<and> 0 \<le> ?x3 \<and> ?x3 < 16"
    using push_bit_or_below [of d ?x2 3] assms(4) s2 by simp
  have s4: "push_bit 4 e OR ?x3 = ?x4 \<and> 0 \<le> ?x4 \<and> ?x4 < 32"
    using push_bit_or_below [of e ?x3 4] assms(5) s3 by simp
  have s5: "push_bit 5 f OR ?x4 = ?x5 \<and> 0 \<le> ?x5 \<and> ?x5 < 64"
    using push_bit_or_below [of f ?x4 5] assms(6) s4 by simp
  have s6: "push_bit 6 g OR ?x5 = ?x6 \<and> 0 \<le> ?x6 \<and> ?x6 < 128"
    using push_bit_or_below [of g ?x5 6] assms(7) s5 by simp
  have s7: "push_bit 7 h OR ?x6 = ?x7 \<and> 0 \<le> ?x7 \<and> ?x7 < 256"
    using push_bit_or_below [of h ?x6 7] assms(8) s6 by simp
  show "push_bit 7 h OR push_bit 6 g OR push_bit 5 f OR push_bit 4 e OR
          push_bit 3 d OR push_bit 2 c OR push_bit 1 b OR a = ?x7"
    by (simp only: s1 s2 s3 s4 s5 s6 s7)
  show "0 \<le> ?x7"
    using s7 by blast
  show "?x7 < 256"
    using s7 by blast
qed

lemma shift_sum_8:
  "(\<Sum>col<8. push_bit col ([a, b, c, d, e, f, g, h] ! col))
     = 128 * h + (64 * g + (32 * f + (16 * e + (8 * d + (4 * c + (2 * b + (a::int)))))))"
  by (simp add: eval_nat_numeral lessThan_Suc push_bit_eq_mult)

lemma pack_row_binary:
  assumes "binary_row row"
  shows "pack_row row = Inr (\<Sum>col<8. push_bit col (row ! col))"
    and "0 \<le> (\<Sum>col<8. push_bit col (row ! col))"
    and "(\<Sum>col<8. push_bit col (row ! col)) \<le> 255"
proof -
  from assms have "length row = 8"
    by (simp add: binary_row_def)
  from list_of_length_8 [OF this] obtain a b c d e f g h
    where row: "row = [a, b, c, d, e, f, g, h]"
    by blast
  from assms have bin: "binary a" "binary b" "binary c" "binary d" "binary e" "binary f"
      "binary g" "binary h"
    by (simp_all add: binary_row_def row)
  note ps = pack_sum_8 [OF bin]
  show "pack_row row = Inr (\<Sum>col<8. push_bit col (row ! col))"
    unfolding row pack_row_8 shift_sum_8 ps(1) ..
  show "0 \<le> (\<Sum>col<8. push_bit col (row ! col))"
    unfolding row shift_sum_8 by (rule ps(2))
  show "(\<Sum>col<8. push_bit col (row ! col)) \<le> 255"
    unfolding row shift_sum_8 using ps(3) by simp
qed

lemma unpack_pack_row:
  assumes "binary_row row" "pack_row row = Inr n"
  shows "unpack_row n = row"
proof -
  from assms have "length row = 8"
    by (simp add: binary_row_def)
  from list_of_length_8 [OF this] obtain a b c d e f g h
    where row: "row = [a, b, c, d, e, f, g, h]"
    by blast
  from assms have bin: "binary a" "binary b" "binary c" "binary d" "binary e" "binary f"
      "binary g" "binary h"
    by (simp_all add: binary_row_def row)
  have n: "n = push_bit 7 (of_bool (h = 1)) OR push_bit 6 (of_bool (g = 1)) OR
      push_bit 5 (of_bool (f = 1)) OR push_bit 4 (of_bool (e = 1)) OR
      push_bit 3 (of_bool (d = 1)) OR push_bit 2 (of_bool (c = 1)) OR
      push_bit 1 (of_bool (b = 1)) OR of_bool (a = 1)"
    using assms(2) bin [THEN binary_of_bool] unfolding row pack_row_8 by simp
  have "unpack_row n = [of_bool (a = 1), of_bool (b = 1), of_bool (c = 1), of_bool (d = 1),
      of_bool (e = 1), of_bool (f = 1), of_bool (g = 1), of_bool (h = 1)]"
    unfolding n
    by (simp add: unpack_row_def upt_rec and_one_eq
          flip: bit_iff_odd_drop_bit of_bool_odd_eq_mod_2)
  then show ?thesis
    using bin [THEN binary_of_bool] unfolding row by simp
qed

lemma below_8: "(m::nat) < 8 \<Longrightarrow> m = 0 \<or> m = 1 \<or> m = 2 \<or> m = 3 \<or> m = 4 \<or> m = 5 \<or> m = 6 \<or> m = 7"
  by arith

lemma pack_unpack_row:
  assumes "0 \<le> n" "n \<le> 255"
  shows "pack_row (unpack_row n) = Inr n"
proof -
  have tb: "take_bit 8 n = n"
    using assms by (simp add: take_bit_int_eq_self)
  have "push_bit 7 (of_bool (bit n 7)) OR push_bit 6 (of_bool (bit n 6)) OR
        push_bit 5 (of_bool (bit n 5)) OR push_bit 4 (of_bool (bit n 4)) OR
        push_bit 3 (of_bool (bit n 3)) OR push_bit 2 (of_bool (bit n 2)) OR
        push_bit 1 (of_bool (bit n 1)) OR of_bool (bit n 0) = take_bit 8 n"
  proof (rule bit_eqI)
    fix m
    show "bit (push_bit 7 (of_bool (bit n 7)) OR push_bit 6 (of_bool (bit n 6)) OR
        push_bit 5 (of_bool (bit n 5)) OR push_bit 4 (of_bool (bit n 4)) OR
        push_bit 3 (of_bool (bit n 3)) OR push_bit 2 (of_bool (bit n 2)) OR
        push_bit 1 (of_bool (bit n 1)) OR (of_bool (bit n 0) :: int)) m = bit (take_bit 8 n) m"
    proof (cases "m < 8")
      case True
      from below_8 [OF this] show ?thesis
        by (elim disjE) (simp_all add: bit_simps)
    next
      case False
      then show ?thesis
        by (simp add: bit_simps)
    qed
  qed
  then show ?thesis
    unfolding unpack_row_8 pack_row_8 tb by (rule arg_cong)
qed

text \<open>
  C9. For every row of eight binary values, \<open>pack_row\<close> returns the sum of
  \<open>row[col] << col\<close> over the columns 0..7; reading bit \<open>i\<close> back as column \<open>i\<close> gives the
  row again; and packing is a bijection between the binary rows of length 8 and the integers
  0..255.
\<close>

theorem pack_row_bijection:
  "(\<forall>row. binary_row row \<longrightarrow>
      pack_row row = Inr (\<Sum>col<8. push_bit col (row ! col)) \<and>
      (\<forall>n. pack_row row = Inr n \<longrightarrow> unpack_row n = row)) \<and>
   bij_betw pack_row {row. binary_row row} (Inr ` {0..255})"
proof (intro conjI allI impI)
  fix row
  assume "binary_row row"
  then show "pack_row row = Inr (\<Sum>col<8. push_bit col (row ! col))"
    by (rule pack_row_binary(1))
next
  fix row n
  assume "binary_row row" "pack_row row = Inr n"
  then show "unpack_row n = row"
    by (rule unpack_pack_row)
next
  show "bij_betw pack_row {row. binary_row row} (Inr ` {0..255})"
    unfolding bij_betw_def
  proof
    show "inj_on pack_row {row. binary_row row}"
    proof (rule inj_onI)
      fix r1 r2
      assume a: "r1 \<in> {row. binary_row row}" "r2 \<in> {row. binary_row row}" "pack_row r1 = pack_row r2"
      from a(1) obtain n where n: "pack_row r1 = Inr n"
        using pack_row_binary(1) by blast
      with a(3) have n2: "pack_row r2 = Inr n"
        by simp
      have "unpack_row n = r1"
        using a(1) n by (simp add: unpack_pack_row)
      moreover have "unpack_row n = r2"
        using a(2) n2 by (simp add: unpack_pack_row)
      ultimately show "r1 = r2"
        by simp
    qed
    show "pack_row ` {row. binary_row row} = Inr ` {0..255}"
    proof (rule set_eqI, rule iffI)
      fix v
      assume "v \<in> pack_row ` {row. binary_row row}"
      then obtain row where "binary_row row" "v = pack_row row"
        by blast
      then show "v \<in> Inr ` {0..255}"
        using pack_row_binary [of row] by simp
    next
      fix v :: "py_error + int"
      assume "v \<in> Inr ` {0..255}"
      then obtain n where "0 \<le> n" "n \<le> 255" "v = Inr n"
        by auto
      then have "v = pack_row (unpack_row n)"
        by (simp add: pack_unpack_row)
      then show "v \<in> pack_row ` {row. binary_row row}"
        using binary_row_unpack by blast
    qed
  qed
qed

theorem pack_row_bijection_witness:
  "binary_row [1, 0, 1, 1, 0, 0, 0, 1] \<and>
   pack_row [1, 0, 1, 1, 0, 0, 0, 1] = Inr 141 \<and>
   (\<Sum>col<8. push_bit col ([1, 0, 1, 1, 0, 0, 0, 1 :: int] ! col)) = 141 \<and>
   unpack_row 141 = [1, 0, 1, 1, 0, 0, 0, 1]"
proof -
  have b: "binary_row [1, 0, 1, 1, 0, 0, 0, 1]"
    by (simp add: binary_row_def binary_def)
  have p: "pack_row [1, 0, 1, 1, 0, 0, 0, 1] = Inr 141"
    by (simp add: pack_row_def)
  from pack_row_bijection b p show ?thesis
    by (metis Inr_inject)
qed

section \<open>Loops and indexing\<close>

lemma for_each_invariant:
  assumes "\<And>x s. x \<in> set xs \<Longrightarrow> P s \<Longrightarrow> P (state_of (body x s))" and "P s"
  shows "P (state_of (for_each body xs s))"
  using assms
proof (induction xs arbitrary: s)
  case Nil
  then show ?case by simp
next
  case (Cons x xs)
  have step: "P (state_of (body x s))"
    using Cons.prems by simp
  show ?case
  proof (cases "body x s")
    case (Done s')
    with step have "P s'" by simp
    then have "P (state_of (for_each body xs s'))"
      using Cons.prems(1) by (intro Cons.IH) simp_all
    with Done show ?thesis by simp
  next
    case (Raised e s')
    with step show ?thesis by simp
  qed
qed

lemma py_index_Some: "py_index xs i = Some k \<Longrightarrow> k < length xs"
  by (auto simp: py_index_def Let_def split: if_splits)

lemma py_index_nonneg: "0 \<le> i \<Longrightarrow> i < int (length xs) \<Longrightarrow> py_index xs i = Some (nat i)"
  by (simp add: py_index_def)

lemma py_index_neg:
  "i < 0 \<Longrightarrow> - int (length xs) \<le> i \<Longrightarrow> py_index xs i = Some (nat (i + int (length xs)))"
  by (simp add: py_index_def)

lemma set_py_slice_to: "set (py_slice_to n xs) \<subseteq> set xs"
  by (auto simp: py_slice_to_def dest: in_set_takeD)

lemma in_set_enumerate_snd: "(i, v) \<in> set (enumerate k xs) \<Longrightarrow> v \<in> set xs"
  by (auto simp: in_set_enumerate_eq)

section \<open>Properties of buffers kept by every LED method\<close>

lemma set_level_closed:
  assumes "cell_closed Q P" "P b" "Q l"
  shows "P (state_of (set_level b x y l))"
proof (cases "py_index (levels b) y")
  case None
  then show ?thesis using assms(2) by (simp add: set_level_def)
next
  case (Some r)
  note r = this
  show ?thesis
  proof (cases "py_index (levels b ! r) x")
    case None
    then show ?thesis using assms(2) r by (simp add: set_level_def)
  next
    case (Some c)
    have "r < length (levels b)" "c < length (levels b ! r)"
      using r Some by (auto dest: py_index_Some)
    then have "P (b\<lparr>levels := (levels b)[r := (levels b ! r)[c := l]]\<rparr>)"
      using assms unfolding cell_closed_def by blast
    then show ?thesis using r Some by (simp add: set_level_def)
  qed
qed

lemma led_level_set_closed:
  assumes "cell_closed Q P" "P b" "Q l"
  shows "P (state_of (led_level_set b x y l))"
  using assms by (simp add: led_level_set_def set_level_closed)

lemma led_level_all_closed:
  assumes "cell_closed Q P" "P b" "Q l"
  shows "P (state_of (led_level_all b l))"
  unfolding led_level_all_def
proof (rule for_each_invariant [where P = P])
  show "P b" by fact
next
  fix x s
  assume s: "P s"
  show "P (state_of (for_each (\<lambda>y b'. set_level b' x y l) (py_range (height b)) s))"
  proof (rule for_each_invariant [where P = P])
    show "P s" by fact
  next
    fix y s'
    assume "P s'"
    then show "P (state_of (set_level s' x y l))"
      using assms(1,3) by (simp add: set_level_closed)
  qed
qed

lemma led_level_row_closed:
  assumes "cell_closed Q P" "P b" "list_all Q data"
  shows "P (state_of (led_level_row b x_offset y data))"
proof (cases "y < height b")
  case True
  have "P (state_of (for_each (\<lambda>(x, l) b'. set_level b' (int x + x_offset) y l)
           (enumerate 0 (py_slice_to (width b - x_offset) data)) b))"
  proof (rule for_each_invariant [where P = P])
  show "P b" by fact
next
    fix p s
    assume p: "p \<in> set (enumerate 0 (py_slice_to (width b - x_offset) data))" and s: "P s"
    obtain i l where il: "p = (i, l)" by (cases p)
    with p have "l \<in> set data"
      using set_py_slice_to in_set_enumerate_snd by fastforce
    with assms(3) have "Q l" by (simp add: list_all_iff)
    then show "P (state_of ((case p of (x, l) \<Rightarrow> \<lambda>b'. set_level b' (int x + x_offset) y l) s))"
      using il s by (simp add: set_level_closed [OF assms(1)])
  qed
  with True show ?thesis by (simp add: led_level_row_def)
next
  case False
  then show ?thesis using assms(2) by (simp add: led_level_row_def)
qed

lemma led_level_col_closed:
  assumes "cell_closed Q P" "P b" "list_all Q data"
  shows "P (state_of (led_level_col b x y_offset data))"
proof (cases "x < width b")
  case True
  have "P (state_of (for_each (\<lambda>(y, l) b'. set_level b' x (int y + y_offset) l)
           (enumerate 0 (py_slice_to (height b - y_offset) data)) b))"
  proof (rule for_each_invariant [where P = P])
  show "P b" by fact
next
    fix p s
    assume p: "p \<in> set (enumerate 0 (py_slice_to (height b - y_offset) data))" and s: "P s"
    obtain i l where il: "p = (i, l)" by (cases p)
    with p have "l \<in> set data"
      using set_py_slice_to in_set_enumerate_snd by fastforce
    with assms(3) have "Q l" by (simp add: list_all_iff)
    then show "P (state_of ((case p of (y, l) \<Rightarrow> \<lambda>b'. set_level b' x (int y + y_offset) l) s))"
      using il s by (simp add: set_level_closed [OF assms(1)])
  qed
  with True show ?thesis by (simp add: led_level_col_def)
next
  case False
  then show ?thesis using assms(2) by (simp add: led_level_col_def)
qed

lemma led_level_map_closed:
  assumes "cell_closed Q P" "P b" "list_all Q (concat data)"
  shows "P (state_of (led_level_map b x_offset y_offset data))"
  unfolding led_level_map_def
proof (rule for_each_invariant [where P = P])
  show "P b" by fact
next
  fix p s
  assume p: "p \<in> set (enumerate 0 data)" and s: "P s"
  obtain r row where rr: "p = (r, row)" by (cases p)
  with p have "row \<in> set data"
    by (auto dest: in_set_enumerate_snd)
  with assms(3) have "list_all Q row" by (auto simp: list_all_iff)
  then show "P (state_of ((case p of (r, row) \<Rightarrow> \<lambda>b'. led_level_row b' x_offset (y_offset + int r) row) s))"
    using rr s by (simp add: led_level_row_closed [OF assms(1)])
qed

lemma led_set_closed:
  assumes "cell_closed Q P" "P b" "Q (s * 15)"
  shows "P (state_of (led_set b x y s))"
  using assms by (simp add: led_set_def led_level_set_closed)

lemma led_all_closed:
  assumes "cell_closed Q P" "P b" "Q (s * 15)"
  shows "P (state_of (led_all b s))"
  using assms by (simp add: led_all_def led_level_all_closed)

lemma led_row_closed:
  assumes "cell_closed Q P" "P b" "list_all (\<lambda>s. Q (s * 15)) data"
  shows "P (state_of (led_row b x_offset y data))"
  unfolding led_row_def
proof (rule for_each_invariant [where P = P])
  show "P b" by fact
next
  fix p s
  assume p: "p \<in> set (enumerate 0 data)" and s: "P s"
  obtain i v where iv: "p = (i, v)" by (cases p)
  with p have "v \<in> set data"
    by (auto dest: in_set_enumerate_snd)
  with assms(3) have "Q (v * 15)" by (simp add: list_all_iff)
  then show "P (state_of ((case p of (x, s) \<Rightarrow> \<lambda>b'. led_set b' (x_offset + int x) y s) s))"
    using iv s by (simp add: led_set_closed [OF assms(1)])
qed

lemma led_col_closed:
  assumes "cell_closed Q P" "P b" "list_all (\<lambda>s. Q (s * 15)) data"
  shows "P (state_of (led_col b x y_offset data))"
  unfolding led_col_def
proof (rule for_each_invariant [where P = P])
  show "P b" by fact
next
  fix p s
  assume p: "p \<in> set (enumerate 0 data)" and s: "P s"
  obtain i v where iv: "p = (i, v)" by (cases p)
  with p have "v \<in> set data"
    by (auto dest: in_set_enumerate_snd)
  with assms(3) have "Q (v * 15)" by (simp add: list_all_iff)
  then show "P (state_of ((case p of (y, s) \<Rightarrow> \<lambda>b'. led_set b' x (y_offset + int y) s) s))"
    using iv s by (simp add: led_set_closed [OF assms(1)])
qed

lemma led_map_closed:
  assumes "cell_closed Q P" "P b" "list_all (\<lambda>s. Q (s * 15)) (concat data)"
  shows "P (state_of (led_map b x_offset y_offset data))"
  unfolding led_map_def
proof (rule for_each_invariant [where P = P])
  show "P b" by fact
next
  fix p s
  assume p: "p \<in> set (enumerate 0 data)" and s: "P s"
  obtain r row where rr: "p = (r, row)" by (cases p)
  with p have "row \<in> set data"
    by (auto dest: in_set_enumerate_snd)
  with assms(3) have "list_all (\<lambda>s. Q (s * 15)) row" by (auto simp: list_all_iff)
  then show "P (state_of ((case p of (r, row) \<Rightarrow> \<lambda>b'. led_row b' x_offset (y_offset + int r) row) s))"
    using rr s by (simp add: led_row_closed [OF assms(1)])
qed

lemma GridBuffer_call_closed:
  assumes "cell_closed Q P" "P b" "list_all Q (level_args c)"
    "list_all (\<lambda>s. Q (s * 15)) (binary_args c)"
  shows "P (state_of (GridBuffer_call b c))"
proof (cases c)
  case (LedSet x y s)
  then show ?thesis using assms by (simp add: led_set_closed)
next
  case (LedAll s)
  then show ?thesis using assms by (simp add: led_all_closed)
next
  case (LedMap xo yo data)
  then show ?thesis using assms by (simp add: led_map_closed)
next
  case (LedRow xo y data)
  then show ?thesis using assms by (simp add: led_row_closed)
next
  case (LedCol x yo data)
  then show ?thesis using assms by (simp add: led_col_closed)
next
  case (LedIntensity i)
  then show ?thesis using assms by simp
next
  case (LedLevelSet x y l)
  then show ?thesis using assms by (simp add: led_level_set_closed)
next
  case (LedLevelAll l)
  then show ?thesis using assms by (simp add: led_level_all_closed)
next
  case (LedLevelMap xo yo data)
  then show ?thesis using assms by (simp add: led_level_map_closed)
next
  case (LedLevelRow xo y data)
  then show ?thesis using assms by (simp add: led_level_row_closed)
next
  case (LedLevelCol x yo data)
  then show ?thesis using assms by (simp add: led_level_col_closed)
qed

lemma cell_closed_levels_in_range: "cell_closed level levels_in_range"
  unfolding cell_closed_def levels_in_range_def
  by (auto simp: list_all_length nth_list_update)

lemma cell_closed_wf_buffer: "cell_closed (\<lambda>l. True) wf_buffer"
  unfolding cell_closed_def wf_buffer_def
  by (auto simp: list_all_length nth_list_update)

lemma cell_closed_written_only: "cell_closed (\<lambda>l. l \<in> set V) (written_only V b0)"
  unfolding cell_closed_def written_only_def
  by (auto simp: list_all2_conv_all_nth nth_list_update)

lemma written_only_refl: "written_only V b b"
  by (simp add: written_only_def list_all2_conv_all_nth)

lemma wf_buffer_GridBuffer_init: "wf_buffer (GridBuffer_init w h)"
  by (simp add: wf_buffer_def GridBuffer_init_def list_all_iff)

lemma wf_buffer_GridBuffer_call: "wf_buffer b \<Longrightarrow> wf_buffer (state_of (GridBuffer_call b c))"
  by (rule GridBuffer_call_closed [OF cell_closed_wf_buffer]) (simp_all add: list_all_iff)

section \<open>Stored levels\<close>

lemma GridBuffer_calls_snoc:
  "GridBuffer_calls b (cmds @ [c]) = state_of (GridBuffer_call (GridBuffer_calls b cmds) c)"
  by (simp add: GridBuffer_calls_def)

lemma valid_cmd_in_range:
  assumes "valid_cmd c" "levels_in_range b"
  shows "levels_in_range (state_of (GridBuffer_call b c))"
proof (rule GridBuffer_call_closed [OF cell_closed_levels_in_range assms(2)])
  show "list_all level (level_args c)"
    using assms(1) by (simp add: valid_cmd_def)
  have "\<And>s. binary s \<Longrightarrow> level (s * 15)"
    by (auto simp: binary_def level_def)
  then show "list_all (\<lambda>s. level (s * 15)) (binary_args c)"
    using assms(1) by (simp add: valid_cmd_def list_all_iff)
qed

lemma binary_cmd_written_only:
  assumes "is_binary_cmd c" "list_all binary (binary_args c)"
  shows "written_only [0, 15] b (state_of (GridBuffer_call b c))"
proof (rule GridBuffer_call_closed [OF cell_closed_written_only written_only_refl])
  show "list_all (\<lambda>l. l \<in> set [0, 15]) (level_args c)"
    using assms(1) by (cases c) simp_all
  have "\<And>s. binary s \<Longrightarrow> s * 15 \<in> set [0, 15]"
    by (auto simp: binary_def)
  then show "list_all (\<lambda>s. s * 15 \<in> set [0, 15]) (binary_args c)"
    using assms(2) by (simp add: list_all_iff)
qed

text \<open>
  C2, as the code has it. The level methods store their argument as given, without
  clamping, so the invariant needs the arguments in range: on a buffer whose levels lie in
  0..15, after any sequence of LED calls whose level arguments lie in 0..15 and whose on/off
  arguments are 0 or 1 (with any coordinates; the calls may return or raise), every stored
  level lies in 0..15. A binary call with on/off arguments 0 or 1 leaves every cell as it
  was or holding 0 or 15.
\<close>

theorem levels_stay_in_range:
  "(levels_in_range b \<and> list_all valid_cmd cmds \<longrightarrow>
      levels_in_range (GridBuffer_calls b cmds)) \<and>
   (is_binary_cmd c \<and> list_all binary (binary_args c) \<longrightarrow>
      written_only [0, 15] b (state_of (GridBuffer_call b c)))"
proof (intro conjI impI)
  assume "levels_in_range b \<and> list_all valid_cmd cmds"
  then have "levels_in_range b" "list_all valid_cmd cmds"
    by simp_all
  then show "levels_in_range (GridBuffer_calls b cmds)"
  proof (induction cmds rule: rev_induct)
    case Nil
    then show ?case by (simp add: GridBuffer_calls_def)
  next
    case (snoc c cmds)
    then show ?case
      by (simp add: GridBuffer_calls_snoc valid_cmd_in_range)
  qed
next
  assume "is_binary_cmd c \<and> list_all binary (binary_args c)"
  then show "written_only [0, 15] b (state_of (GridBuffer_call b c))"
    by (simp add: binary_cmd_written_only)
qed

theorem levels_stay_in_range_witness:
  "levels_in_range (GridBuffer_init 2 2) \<and>
   list_all valid_cmd [LedLevelRow 0 1 [7, 15, 3], LedSet 1 0 1, LedLevelSet (-1) (-2) 9] \<and>
   GridBuffer_calls (GridBuffer_init 2 2)
     [LedLevelRow 0 1 [7, 15, 3], LedSet 1 0 1, LedLevelSet (-1) (-2) 9]
     = \<lparr>levels = [[0, 9], [7, 15]], width = 2, height = 2\<rparr> \<and>
   levels_in_range (GridBuffer_calls (GridBuffer_init 2 2)
     [LedLevelRow 0 1 [7, 15, 3], LedSet 1 0 1, LedLevelSet (-1) (-2) 9]) \<and>
   is_binary_cmd (LedRow 0 0 [1, 0]) \<and> list_all binary (binary_args (LedRow 0 0 [1, 0])) \<and>
   written_only [0, 15] (GridBuffer_init 2 2)
     (state_of (GridBuffer_call (GridBuffer_init 2 2) (LedRow 0 0 [1, 0])))"
proof -
  have a: "levels_in_range (GridBuffer_init 2 2)"
    by (simp add: levels_in_range_def GridBuffer_init_def level_def eval_nat_numeral)
  have b: "list_all valid_cmd [LedLevelRow 0 1 [7, 15, 3], LedSet 1 0 1, LedLevelSet (-1) (-2) 9]"
    by (simp add: valid_cmd_def level_def binary_def)
  have c: "GridBuffer_calls (GridBuffer_init 2 2)
     [LedLevelRow 0 1 [7, 15, 3], LedSet 1 0 1, LedLevelSet (-1) (-2) 9]
     = \<lparr>levels = [[0, 9], [7, 15]], width = 2, height = 2\<rparr>"
    by code_simp
  have d: "is_binary_cmd (LedRow 0 0 [1, 0]) \<and> list_all binary (binary_args (LedRow 0 0 [1, 0]))"
    by (simp add: binary_def)
  show ?thesis
    using a b c d
      levels_stay_in_range [of "GridBuffer_init 2 2"
        "[LedLevelRow 0 1 [7, 15, 3], LedSet 1 0 1, LedLevelSet (-1) (-2) 9]" "LedRow 0 0 [1, 0]"]
    by simp
qed

theorem levels_not_clamped:
  "levels_in_range (GridBuffer_init 8 8) \<and>
   GridBuffer_call (GridBuffer_init 8 8) (LedLevelSet 0 0 99)
     = Done ((GridBuffer_init 8 8)\<lparr>levels := (replicate 8 0)[0 := 99] # replicate 7 (replicate 8 0)\<rparr>) \<and>
   \<not> levels_in_range (GridBuffer_calls (GridBuffer_init 8 8) [LedLevelSet 0 0 99])"
  by code_simp

section \<open>Negative coordinates\<close>

lemma for_each_cong_invariant:
  assumes "\<And>x s. x \<in> set xs \<Longrightarrow> I s \<Longrightarrow> f x s = g x s"
    and "\<And>x s. x \<in> set xs \<Longrightarrow> I s \<Longrightarrow> I (state_of (f x s))"
    and "I s"
  shows "for_each f xs s = for_each g xs s"
  using assms
proof (induction xs arbitrary: s)
  case Nil
  then show ?case by simp
next
  case (Cons x xs)
  have eq: "f x s = g x s"
    using Cons.prems by simp
  have inv: "I (state_of (f x s))"
    using Cons.prems by simp
  show ?case
  proof (cases "f x s")
    case (Done s')
    with inv have "I s'" by simp
    then have "for_each f xs s' = for_each g xs s'"
      using Cons.prems(1,2) by (intro Cons.IH) simp_all
    with Done eq show ?thesis by simp
  next
    case (Raised e s')
    with eq [symmetric] show ?thesis by simp
  qed
qed

lemma cell_closed_same_shape: "cell_closed (\<lambda>l. True) (same_shape b)"
  unfolding cell_closed_def same_shape_def wf_buffer_def
  by (auto simp: list_all_length nth_list_update)

lemma same_shape_refl: "wf_buffer b \<Longrightarrow> same_shape b b"
  by (simp add: same_shape_def)

lemma set_level_wrap_y:
  assumes "same_shape b s" "- height b \<le> y" "y < 0"
  shows "set_level s x y l = set_level s x (height b + y) l"
proof -
  have "length (levels s) = nat (height b)"
    using assms(1) by (simp add: same_shape_def wf_buffer_def)
  then have "py_index (levels s) y = py_index (levels s) (height b + y)"
    using assms(2,3) by (simp add: py_index_def Let_def add.commute)
  then show ?thesis
    by (simp add: set_level_def)
qed

lemma set_level_wrap_x:
  assumes "same_shape b s" "- width b \<le> x" "x < 0"
  shows "set_level s x y l = set_level s (width b + x) y l"
proof (cases "py_index (levels s) y")
  case None
  then show ?thesis by (simp add: set_level_def)
next
  case (Some r)
  then have "r < length (levels s)"
    by (rule py_index_Some)
  then have "length (levels s ! r) = nat (width b)"
    using assms(1) by (simp add: same_shape_def wf_buffer_def list_all_length)
  then have "py_index (levels s ! r) x = py_index (levels s ! r) (width b + x)"
    using assms(2,3) by (simp add: py_index_def Let_def add.commute)
  with Some show ?thesis
    by (simp add: set_level_def)
qed

lemma led_level_row_wrap_y:
  assumes "wf_buffer b" "- height b \<le> y" "y < 0"
  shows "led_level_row b x_offset y data = led_level_row b x_offset (height b + y) data"
proof -
  have "for_each (\<lambda>(x, l) b'. set_level b' (int x + x_offset) y l)
          (enumerate 0 (py_slice_to (width b - x_offset) data)) b
      = for_each (\<lambda>(x, l) b'. set_level b' (int x + x_offset) (height b + y) l)
          (enumerate 0 (py_slice_to (width b - x_offset) data)) b"
  proof (rule for_each_cong_invariant [where I = "same_shape b"])
    show "same_shape b b"
      using assms(1) by (rule same_shape_refl)
  next
    fix p s
    assume "same_shape b s"
    then show "(case p of (x, l) \<Rightarrow> \<lambda>b'. set_level b' (int x + x_offset) y l) s
        = (case p of (x, l) \<Rightarrow> \<lambda>b'. set_level b' (int x + x_offset) (height b + y) l) s"
      using assms(2,3) by (cases p) (simp add: set_level_wrap_y)
  next
    fix p s
    assume "same_shape b s"
    then show "same_shape b
        (state_of ((case p of (x, l) \<Rightarrow> \<lambda>b'. set_level b' (int x + x_offset) y l) s))"
      by (cases p) (simp add: set_level_closed [OF cell_closed_same_shape])
  qed
  then show ?thesis
    using assms(2,3) by (simp add: led_level_row_def)
qed

lemma led_level_col_wrap_x:
  assumes "wf_buffer b" "- width b \<le> x" "x < 0"
  shows "led_level_col b x y_offset data = led_level_col b (width b + x) y_offset data"
proof -
  have "for_each (\<lambda>(y, l) b'. set_level b' x (int y + y_offset) l)
          (enumerate 0 (py_slice_to (height b - y_offset) data)) b
      = for_each (\<lambda>(y, l) b'. set_level b' (width b + x) (int y + y_offset) l)
          (enumerate 0 (py_slice_to (height b - y_offset) data)) b"
  proof (rule for_each_cong_invariant [where I = "same_shape b"])
    show "same_shape b b"
      using assms(1) by (rule same_shape_refl)
  next
    fix p s
    assume "same_shape b s"
    then show "(case p of (y, l) \<Rightarrow> \<lambda>b'. set_level b' x (int y + y_offset) l) s
        = (case p of (y, l) \<Rightarrow> \<lambda>b'. set_level b' (width b + x) (int y + y_offset) l) s"
      using assms(2,3) by (cases p) (simp add: set_level_wrap_x)
  next
    fix p s
    assume "same_shape b s"
    then show "same_shape b
        (state_of ((case p of (y, l) \<Rightarrow> \<lambda>b'. set_level b' x (int y + y_offset) l) s))"
      by (cases p) (simp add: set_level_closed [OF cell_closed_same_shape])
  qed
  then show ?thesis
    using assms(2,3) by (simp add: led_level_col_def)
qed

lemma py_index_wrapped:
  "- int (length xs) \<le> i \<Longrightarrow> i < int (length xs) \<Longrightarrow>
     py_index xs i = Some (wrapped (int (length xs)) i) \<and> wrapped (int (length xs)) i < length xs"
  by (auto simp: py_index_def wrapped_def Let_def)

lemma led_level_set_wrapped:
  assumes "wf_buffer b" "- width b \<le> x" "x < width b" "- height b \<le> y" "y < height b"
  shows "led_level_set b x y l =
           Done (b\<lparr>levels := (levels b)[wrapped (height b) y :=
                    (levels b ! wrapped (height b) y)[wrapped (width b) x := l]]\<rparr>)"
    and "wrapped (height b) y < length (levels b)"
    and "wrapped (width b) x < length (levels b ! wrapped (height b) y)"
proof -
  have h: "int (length (levels b)) = height b"
    using assms by (simp add: wf_buffer_def)
  from py_index_wrapped [of "levels b" y] assms(4,5)
  have r: "py_index (levels b) y = Some (wrapped (height b) y)"
      "wrapped (height b) y < length (levels b)"
    by (simp_all add: h)
  then have w: "int (length (levels b ! wrapped (height b) y)) = width b"
    using assms by (simp add: wf_buffer_def list_all_length)
  from py_index_wrapped [of "levels b ! wrapped (height b) y" x] assms(2,3)
  have c: "py_index (levels b ! wrapped (height b) y) x = Some (wrapped (width b) x)"
      "wrapped (width b) x < length (levels b ! wrapped (height b) y)"
    by (simp_all add: w)
  show "led_level_set b x y l =
           Done (b\<lparr>levels := (levels b)[wrapped (height b) y :=
                    (levels b ! wrapped (height b) y)[wrapped (width b) x := l]]\<rparr>)"
    using assms(3,5) r(1) c(1) by (simp add: led_level_set_def set_level_def)
  show "wrapped (height b) y < length (levels b)" by fact
  show "wrapped (width b) x < length (levels b ! wrapped (height b) y)" by fact
qed

lemma write_row_Nil: "write_row p [] row = row"
  by (simp add: write_row_def)

lemma write_row_Cons:
  "p < length row \<Longrightarrow> write_row (Suc p) ds (row[p := l]) = write_row p (l # ds) row"
  by (simp add: write_row_def take_Suc_conv_app_nth drop_update_cancel)

lemma length_write_row: "p + length ds \<le> length row \<Longrightarrow> length (write_row p ds row) = length row"
  by (simp add: write_row_def)

lemma row_loop:
  assumes "py_index (levels b) y = Some r" "0 \<le> int k + x_offset"
    and "nat (int k + x_offset) + length ds \<le> length (levels b ! r)"
  shows "for_each (\<lambda>(x, l) b'. set_level b' (int x + x_offset) y l) (enumerate k ds) b
         = Done (b\<lparr>levels := (levels b)[r := write_row (nat (int k + x_offset)) ds (levels b ! r)]\<rparr>)"
  using assms
proof (induction ds arbitrary: k b)
  case Nil
  then show ?case by (simp add: write_row_Nil)
next
  case (Cons l ds)
  let ?p = "nat (int k + x_offset)"
  let ?row = "levels b ! r"
  let ?b1 = "b\<lparr>levels := (levels b)[r := ?row[?p := l]]\<rparr>"
  have r: "r < length (levels b)"
    using Cons.prems(1) by (rule py_index_Some)
  have p: "?p < length ?row"
    using Cons.prems(3) by simp
  then have "py_index ?row (int k + x_offset) = Some ?p"
    using Cons.prems(2) by (simp add: py_index_nonneg)
  then have step: "set_level b (int k + x_offset) y l = Done ?b1"
    using Cons.prems(1) by (simp add: set_level_def)
  have idx: "py_index (levels ?b1) y = Some r"
    using Cons.prems(1) by (simp add: py_index_def)
  have row1: "levels ?b1 ! r = ?row[?p := l]"
    using r by simp
  have suc: "nat (int (Suc k) + x_offset) = Suc ?p"
    using Cons.prems(2) by simp
  have "for_each (\<lambda>(x, l) b'. set_level b' (int x + x_offset) y l) (enumerate (Suc k) ds) ?b1
      = Done (?b1\<lparr>levels := (levels ?b1)[r := write_row (nat (int (Suc k) + x_offset)) ds (levels ?b1 ! r)]\<rparr>)"
  proof (rule Cons.IH [OF idx])
    show "0 \<le> int (Suc k) + x_offset"
      using Cons.prems(2) by simp
    show "nat (int (Suc k) + x_offset) + length ds \<le> length (levels ?b1 ! r)"
      unfolding suc row1 using Cons.prems(3) by simp
  qed
  then show ?case
    unfolding suc row1 using step p by (simp add: write_row_Cons)
qed

lemma py_index_list_update: "py_index (xs[i := v]) j = py_index xs j"
  by (simp add: py_index_def)

lemma write_col_Nil: "write_col c p [] rows = rows"
  by (rule nth_equalityI) (auto simp: write_col_def)

lemma write_col_Cons:
  assumes "p < length rows"
  shows "write_col c (Suc p) ds (rows[p := (rows ! p)[c := l]]) = write_col c p (l # ds) rows"
proof (rule nth_equalityI)
  show "length (write_col c (Suc p) ds (rows[p := (rows ! p)[c := l]]))
      = length (write_col c p (l # ds) rows)"
    by (simp add: write_col_def)
next
  fix i
  assume "i < length (write_col c (Suc p) ds (rows[p := (rows ! p)[c := l]]))"
  then have i: "i < length rows"
    by (simp add: write_col_def)
  consider "i < p" | "i = p" | "p < i"
    by arith
  then show "write_col c (Suc p) ds (rows[p := (rows ! p)[c := l]]) ! i
      = write_col c p (l # ds) rows ! i"
  proof cases
    case 1
    then show ?thesis using i by (simp add: write_col_def)
  next
    case 2
    then show ?thesis using i by (simp add: write_col_def)
  next
    case 3
    then show ?thesis using i by (simp add: write_col_def Suc_diff_Suc)
  qed
qed

lemma length_write_col: "length (write_col c p ds rows) = length rows"
  by (simp add: write_col_def)

lemma col_loop:
  assumes "list_all (\<lambda>row. py_index row x = Some c) (levels b)" "0 \<le> int k + y_offset"
    and "nat (int k + y_offset) + length ds \<le> length (levels b)"
  shows "for_each (\<lambda>(y, l) b'. set_level b' x (int y + y_offset) l) (enumerate k ds) b
         = Done (b\<lparr>levels := write_col c (nat (int k + y_offset)) ds (levels b)\<rparr>)"
  using assms
proof (induction ds arbitrary: k b)
  case Nil
  then show ?case by (simp add: write_col_Nil)
next
  case (Cons l ds)
  let ?p = "nat (int k + y_offset)"
  let ?b1 = "b\<lparr>levels := (levels b)[?p := (levels b ! ?p)[c := l]]\<rparr>"
  have p: "?p < length (levels b)"
    using Cons.prems(3) by simp
  then have "py_index (levels b) (int k + y_offset) = Some ?p"
    using Cons.prems(2) by (simp add: py_index_nonneg)
  moreover have "py_index (levels b ! ?p) x = Some c"
    using Cons.prems(1) p by (simp add: list_all_length)
  ultimately have step: "set_level b x (int k + y_offset) l = Done ?b1"
    by (simp add: set_level_def)
  have all1: "list_all (\<lambda>row. py_index row x = Some c) (levels ?b1)"
    using Cons.prems(1) p by (auto simp: list_all_length nth_list_update py_index_list_update)
  have suc: "nat (int (Suc k) + y_offset) = Suc ?p"
    using Cons.prems(2) by simp
  have "for_each (\<lambda>(y, l) b'. set_level b' x (int y + y_offset) l) (enumerate (Suc k) ds) ?b1
      = Done (?b1\<lparr>levels := write_col c (nat (int (Suc k) + y_offset)) ds (levels ?b1)\<rparr>)"
  proof (rule Cons.IH [OF all1])
    show "0 \<le> int (Suc k) + y_offset"
      using Cons.prems(2) by simp
    show "nat (int (Suc k) + y_offset) + length ds \<le> length (levels ?b1)"
      unfolding suc using Cons.prems(3) by simp
  qed
  then show ?case
    unfolding suc using step p by (simp add: write_col_Cons)
qed

lemma led_level_row_in_bounds:
  assumes "wf_buffer b" "0 \<le> y" "y < height b" "0 \<le> x_offset" "x_offset \<le> width b"
  shows "led_level_row b x_offset y data =
           Done (b\<lparr>levels := (levels b)[nat y :=
              write_row (nat x_offset) (take (nat (width b - x_offset)) data) (levels b ! nat y)]\<rparr>)"
proof -
  have len: "length (levels b) = nat (height b)"
    using assms(1) by (simp add: wf_buffer_def)
  then have idx: "py_index (levels b) y = Some (nat y)"
    using assms(2,3) by (simp add: py_index_nonneg)
  have "length (levels b ! nat y) = nat (width b)"
    using assms(1,2,3) len by (simp add: wf_buffer_def list_all_length)
  then have fit: "nat (int 0 + x_offset) + length (take (nat (width b - x_offset)) data)
      \<le> length (levels b ! nat y)"
    using assms(4,5) by simp
  have "for_each (\<lambda>(x, l) b'. set_level b' (int x + x_offset) y l)
          (enumerate 0 (take (nat (width b - x_offset)) data)) b
        = Done (b\<lparr>levels := (levels b)[nat y :=
              write_row (nat (int 0 + x_offset)) (take (nat (width b - x_offset)) data)
                (levels b ! nat y)]\<rparr>)"
    using idx _ fit by (rule row_loop) (use assms(4) in simp)
  then show ?thesis
    using assms(3,5) by (simp add: led_level_row_def py_slice_to_def)
qed

lemma led_level_col_in_bounds:
  assumes "wf_buffer b" "0 \<le> x" "x < width b" "0 \<le> y_offset" "y_offset \<le> height b"
  shows "led_level_col b x y_offset data =
           Done (b\<lparr>levels :=
              write_col (nat x) (nat y_offset) (take (nat (height b - y_offset)) data) (levels b)\<rparr>)"
proof -
  have len: "length (levels b) = nat (height b)"
    using assms(1) by (simp add: wf_buffer_def)
  have rows: "list_all (\<lambda>row. py_index row x = Some (nat x)) (levels b)"
    using assms(1,2,3) by (simp add: wf_buffer_def list_all_length py_index_nonneg)
  have fit: "nat (int 0 + y_offset) + length (take (nat (height b - y_offset)) data)
      \<le> length (levels b)"
    using assms(4,5) len by simp
  have "for_each (\<lambda>(y, l) b'. set_level b' x (int y + y_offset) l)
          (enumerate 0 (take (nat (height b - y_offset)) data)) b
        = Done (b\<lparr>levels := write_col (nat x) (nat (int 0 + y_offset))
              (take (nat (height b - y_offset)) data) (levels b)\<rparr>)"
    using rows _ fit by (rule col_loop) (use assms(4) in simp)
  then show ?thesis
    using assms(3,5) by (simp add: led_level_col_def py_slice_to_def)
qed

text \<open>
  C10. \<open>led_level_set\<close> compares its coordinates with the upper bounds only. On a buffer of
  \<open>height\<close> rows of \<open>width\<close> cells, a negative \<open>x\<close> with \<open>-width \<le> x\<close> (a negative \<open>y\<close>
  with \<open>-height \<le> y\<close>) passes the check and the level is stored in the cell counted from
  the opposite edge, column \<open>width + x\<close> (row \<open>height + y\<close>): the call returns and the cell is
  in bounds. \<open>led_level_row\<close> with such a \<open>y\<close> writes row \<open>height + y\<close> and
  \<open>led_level_col\<close> with such an \<open>x\<close> writes column \<open>width + x\<close>, exactly as the call with
  the wrapped coordinate does.
\<close>

theorem negative_coordinates_wrap:
  assumes "wf_buffer b"
  shows
   "(- width b \<le> x \<and> x < 0 \<and> - height b \<le> y \<and> y < height b \<longrightarrow>
       led_level_set b x y l =
         Done (b\<lparr>levels := (levels b)[wrapped (height b) y :=
                  (levels b ! wrapped (height b) y)[nat (width b + x) := l]]\<rparr>) \<and>
       wrapped (height b) y < length (levels b) \<and>
       nat (width b + x) < length (levels b ! wrapped (height b) y)) \<and>
    (- height b \<le> y \<and> y < 0 \<and> - width b \<le> x \<and> x < width b \<longrightarrow>
       led_level_set b x y l =
         Done (b\<lparr>levels := (levels b)[nat (height b + y) :=
                  (levels b ! nat (height b + y))[wrapped (width b) x := l]]\<rparr>) \<and>
       nat (height b + y) < length (levels b) \<and>
       wrapped (width b) x < length (levels b ! nat (height b + y))) \<and>
    (- height b \<le> y \<and> y < 0 \<longrightarrow>
       led_level_row b x_offset y data = led_level_row b x_offset (height b + y) data) \<and>
    (- height b \<le> y \<and> y < 0 \<and> 0 \<le> x_offset \<and> x_offset \<le> width b \<longrightarrow>
       led_level_row b x_offset y data =
         Done (b\<lparr>levels := (levels b)[nat (height b + y) :=
                  write_row (nat x_offset) (take (nat (width b - x_offset)) data)
                    (levels b ! nat (height b + y))]\<rparr>)) \<and>
    (- width b \<le> x \<and> x < 0 \<longrightarrow>
       led_level_col b x y_offset data = led_level_col b (width b + x) y_offset data) \<and>
    (- width b \<le> x \<and> x < 0 \<and> 0 \<le> y_offset \<and> y_offset \<le> height b \<longrightarrow>
       led_level_col b x y_offset data =
         Done (b\<lparr>levels := write_col (nat (width b + x)) (nat y_offset)
                  (take (nat (height b - y_offset)) data) (levels b)\<rparr>))"
proof (intro conjI impI; (elim conjE)?)
  assume a: "- width b \<le> x" "x < 0" "- height b \<le> y" "y < height b"
  then have "x < width b" by simp
  note w = led_level_set_wrapped [OF assms a(1) this a(3,4)]
  have wx: "wrapped (width b) x = nat (width b + x)"
    using a(2) by (simp add: wrapped_def)
  show "led_level_set b x y l =
         Done (b\<lparr>levels := (levels b)[wrapped (height b) y :=
                  (levels b ! wrapped (height b) y)[nat (width b + x) := l]]\<rparr>)"
    using w(1) by (simp add: wx)
  show "wrapped (height b) y < length (levels b)"
    by (rule w(2))
  show "nat (width b + x) < length (levels b ! wrapped (height b) y)"
    using w(3) by (simp add: wx)
next
  assume a: "- height b \<le> y" "y < 0" "- width b \<le> x" "x < width b"
  then have "y < height b" by simp
  note w = led_level_set_wrapped [OF assms a(3,4) a(1) this]
  have wy: "wrapped (height b) y = nat (height b + y)"
    using a(2) by (simp add: wrapped_def)
  show "led_level_set b x y l =
         Done (b\<lparr>levels := (levels b)[nat (height b + y) :=
                  (levels b ! nat (height b + y))[wrapped (width b) x := l]]\<rparr>)"
    using w(1) by (simp add: wy)
  show "nat (height b + y) < length (levels b)"
    using w(2) by (simp add: wy)
  show "wrapped (width b) x < length (levels b ! nat (height b + y))"
    using w(3) by (simp add: wy)
next
  assume "- height b \<le> y" "y < 0"
  then show "led_level_row b x_offset y data = led_level_row b x_offset (height b + y) data"
    by (rule led_level_row_wrap_y [OF assms])
next
  assume a: "- height b \<le> y" "y < 0" "0 \<le> x_offset" "x_offset \<le> width b"
  have "led_level_row b x_offset y data = led_level_row b x_offset (height b + y) data"
    using a(1,2) by (rule led_level_row_wrap_y [OF assms])
  also have "\<dots> = Done (b\<lparr>levels := (levels b)[nat (height b + y) :=
                  write_row (nat x_offset) (take (nat (width b - x_offset)) data)
                    (levels b ! nat (height b + y))]\<rparr>)"
    using a by (intro led_level_row_in_bounds [OF assms]) simp_all
  finally show "led_level_row b x_offset y data =
         Done (b\<lparr>levels := (levels b)[nat (height b + y) :=
                  write_row (nat x_offset) (take (nat (width b - x_offset)) data)
                    (levels b ! nat (height b + y))]\<rparr>)" .
next
  assume "- width b \<le> x" "x < 0"
  then show "led_level_col b x y_offset data = led_level_col b (width b + x) y_offset data"
    by (rule led_level_col_wrap_x [OF assms])
next
  assume a: "- width b \<le> x" "x < 0" "0 \<le> y_offset" "y_offset \<le> height b"
  have "led_level_col b x y_offset data = led_level_col b (width b + x) y_offset data"
    using a(1,2) by (rule led_level_col_wrap_x [OF assms])
  also have "\<dots> = Done (b\<lparr>levels := write_col (nat (width b + x)) (nat y_offset)
                  (take (nat (height b - y_offset)) data) (levels b)\<rparr>)"
    using a by (intro led_level_col_in_bounds [OF assms]) simp_all
  finally show "led_level_col b x y_offset data =
         Done (b\<lparr>levels := write_col (nat (width b + x)) (nat y_offset)
                  (take (nat (height b - y_offset)) data) (levels b)\<rparr>)" .
qed

theorem negative_coordinates_wrap_witness:
  "wf_buffer (GridBuffer_init 3 2) \<and>
   led_level_set (GridBuffer_init 3 2) (-1) (-2) 5
     = Done \<lparr>levels = [[0, 0, 5], [0, 0, 0]], width = 3, height = 2\<rparr> \<and>
   led_level_set (GridBuffer_init 3 2) (-3) 1 5
     = Done \<lparr>levels = [[0, 0, 0], [5, 0, 0]], width = 3, height = 2\<rparr> \<and>
   led_level_row (GridBuffer_init 3 2) 1 (-1) [7, 8, 9]
     = Done \<lparr>levels = [[0, 0, 0], [0, 7, 8]], width = 3, height = 2\<rparr> \<and>
   led_level_col (GridBuffer_init 3 2) (-2) 0 [7, 8, 9]
     = Done \<lparr>levels = [[0, 7, 0], [0, 8, 0]], width = 3, height = 2\<rparr>"
proof -
  have wf: "wf_buffer (GridBuffer_init 3 2)"
    by (rule wf_buffer_GridBuffer_init)
  have init: "GridBuffer_init 3 2 = \<lparr>levels = [[0, 0, 0], [0, 0, 0]], width = 3, height = 2\<rparr>"
    by (simp add: GridBuffer_init_def eval_nat_numeral)
  note t1 = negative_coordinates_wrap [OF wf, of "-1" "-2" 5 0 "[]" 0, THEN conjunct1]
  note t2 = negative_coordinates_wrap [OF wf, of "-3" 1 5 0 "[]" 0, THEN conjunct1]
  note t3 = negative_coordinates_wrap [OF wf, of 0 "-1" 0 1 "[7, 8, 9]" 0,
      THEN conjunct2, THEN conjunct2, THEN conjunct2, THEN conjunct1]
  note t4 = negative_coordinates_wrap [OF wf, of "-2" 0 0 0 "[7, 8, 9]" 0,
      THEN conjunct2, THEN conjunct2, THEN conjunct2, THEN conjunct2, THEN conjunct2]
  have "led_level_set (GridBuffer_init 3 2) (-1) (-2) 5
     = Done \<lparr>levels = [[0, 0, 5], [0, 0, 0]], width = 3, height = 2\<rparr>"
    using t1 by (simp add: init wrapped_def)
  moreover have "led_level_set (GridBuffer_init 3 2) (-3) 1 5
     = Done \<lparr>levels = [[0, 0, 0], [5, 0, 0]], width = 3, height = 2\<rparr>"
    using t2 by (simp add: init wrapped_def)
  moreover have "led_level_row (GridBuffer_init 3 2) 1 (-1) [7, 8, 9]
     = Done \<lparr>levels = [[0, 0, 0], [0, 7, 8]], width = 3, height = 2\<rparr>"
    using t3 by (simp add: init write_row_def)
  moreover have "led_level_col (GridBuffer_init 3 2) (-2) 0 [7, 8, 9]
     = Done \<lparr>levels = [[0, 7, 0], [0, 8, 0]], width = 3, height = 2\<rparr>"
    using t4 by (simp add: init write_col_def upt_rec)
  ultimately show ?thesis
    using wf by simp
qed

section \<open>The combining operators\<close>

lemma for_each_append:
  "for_each body (xs @ ys) s =
     (case for_each body xs s of Done s' \<Rightarrow> for_each body ys s' | Raised e s' \<Rightarrow> Raised e s')"
  by (induction xs arbitrary: s) (simp_all split: outcome.splits)

lemma for_each_map: "for_each body (map h xs) s = for_each (\<lambda>x. body (h x)) xs s"
  by (induction xs arbitrary: s) (simp_all split: outcome.splits)

lemma for_each_cong_set:
  assumes "\<And>x s. x \<in> set xs \<Longrightarrow> f x s = g x s"
  shows "for_each f xs s = for_each g xs s"
  by (rule for_each_cong_invariant [where I = "\<lambda>s. True"]) (simp_all add: assms)

lemma get_level_in_bounds:
  "r < length (levels b) \<Longrightarrow> c < length (levels b ! r) \<Longrightarrow>
     get_level b (int c) (int r) = Inr (levels b ! r ! c)"
  by (simp add: get_level_def py_get_def py_index_nonneg)

lemma combine_row:
  assumes "r < length (levels self)" "r < length (levels other)"
    and "n \<le> length (levels self ! r)" "n \<le> length (levels other ! r)"
    and "r < length (levels res)" "length (levels res ! r) = n"
  shows "for_each (combine_cell f self other (int r)) (map int [0..<n]) res
         = Done (res\<lparr>levels := (levels res)[r :=
              map (\<lambda>c. f (levels self ! r ! c) (levels other ! r ! c)) [0..<n]]\<rparr>)"
proof -
  let ?g = "\<lambda>c. f (levels self ! r ! c) (levels other ! r ! c)"
  let ?ds = "map ?g [0..<n]"
  have cell: "combine_cell f self other (int r) (int c) s = set_level s (int c) (int r) (?g c)"
    if "c \<in> set [0..<n]" for c s
    using that assms(1-4) by (simp add: combine_cell_def get_level_in_bounds)
  have "for_each (combine_cell f self other (int r)) (map int [0..<n]) res
      = for_each (\<lambda>c. combine_cell f self other (int r) (int c)) [0..<n] res"
    by (rule for_each_map)
  also have "\<dots> = for_each (\<lambda>c s. set_level s (int c) (int r) (?g c)) [0..<n] res"
    by (rule for_each_cong_set) (rule cell)
  also have "\<dots> = for_each (\<lambda>(x, l) s. set_level s (int x + 0) (int r) l)
                     (map (\<lambda>c. (c, ?g c)) [0..<n]) res"
    by (simp add: for_each_map)
  also have "\<dots> = for_each (\<lambda>(x, l) s. set_level s (int x + 0) (int r) l) (enumerate 0 ?ds) res"
    by (simp only: enumerate_map_upt)
  also have "\<dots> = Done (res\<lparr>levels := (levels res)[r :=
                       write_row (nat (int 0 + 0)) ?ds (levels res ! r)]\<rparr>)"
  proof (rule row_loop)
    show "py_index (levels res) (int r) = Some r"
      using assms(5) by (simp add: py_index_nonneg)
    show "0 \<le> int 0 + 0"
      by simp
    show "nat (int 0 + 0) + length ?ds \<le> length (levels res ! r)"
      using assms(6) by simp
  qed
  also have "write_row (nat (int 0 + 0)) ?ds (levels res ! r) = ?ds"
    using assms(6) by (simp add: write_row_def)
  finally show ?thesis .
qed

lemma replicate_update_first:
  "0 < m \<Longrightarrow> (xs @ replicate m z)[length xs := v] = xs @ v # replicate (m - 1) z"
  by (cases m) (simp_all add: list_update_append)

lemma combine_rows:
  assumes "wf_buffer self" "wf_buffer other"
    and "nat (width self) \<le> nat (width other)" "nat (height self) \<le> nat (height other)"
    and "k \<le> nat (height self)"
  shows "for_each (\<lambda>row. for_each (combine_cell f self other row) (py_range (width self)))
           (map int [0..<k]) (GridBuffer_init (width self) (height self))
         = Done ((GridBuffer_init (width self) (height self))
             \<lparr>levels := take k (combined_levels f self other)
                @ replicate (nat (height self) - k) (replicate (nat (width self)) 0)\<rparr>)"
  using assms(5)
proof (induction k)
  case 0
  then show ?case
    by (simp add: GridBuffer_init_def)
next
  case (Suc k)
  let ?w = "nat (width self)"
  let ?h = "nat (height self)"
  let ?init = "GridBuffer_init (width self) (height self)"
  let ?z = "replicate ?w (0::int)"
  let ?res = "?init\<lparr>levels := take k (combined_levels f self other) @ replicate (?h - k) ?z\<rparr>"
  let ?row = "map (\<lambda>c. f (levels self ! k ! c) (levels other ! k ! c)) [0..<?w]"
  have k: "k < ?h"
    using Suc.prems by simp
  have lens: "length (levels self) = ?h" "length (levels other) = nat (height other)"
    using assms(1,2) by (simp_all add: wf_buffer_def)
  have rs: "length (levels self ! k) = ?w"
    using assms(1) k lens by (simp add: wf_buffer_def list_all_length)
  have ro: "length (levels other ! k) = nat (width other)"
    using assms(2,4) k lens by (simp add: wf_buffer_def list_all_length)
  have lc: "length (combined_levels f self other) = ?h"
    by (simp add: combined_levels_def)
  have tk: "length (take k (combined_levels f self other)) = k"
    using k lc by simp
  have rowk: "levels ?res ! k = ?z"
    using k tk by (simp add: nth_append)
  have inner: "for_each (combine_cell f self other (int k)) (map int [0..<?w]) ?res
      = Done (?res\<lparr>levels := (levels ?res)[k := ?row]\<rparr>)"
  proof (rule combine_row)
    show "k < length (levels self)" using k lens by simp
    show "k < length (levels other)" using k lens assms(4) by simp
    show "?w \<le> length (levels self ! k)" using rs by simp
    show "?w \<le> length (levels other ! k)" using ro assms(3) by simp
    show "k < length (levels ?res)" using k tk by simp
    show "length (levels ?res ! k) = ?w" using rowk by simp
  qed
  have "(levels ?res)[k := ?row]
      = take k (combined_levels f self other) @ ?row # replicate (?h - k - 1) ?z"
    using replicate_update_first [of "?h - k" "take k (combined_levels f self other)" ?z ?row] k tk
    by simp
  also have "\<dots> = take (Suc k) (combined_levels f self other) @ replicate (?h - Suc k) ?z"
    using k lc by (simp add: take_Suc_conv_app_nth combined_levels_def)
  finally have upd: "(levels ?res)[k := ?row]
      = take (Suc k) (combined_levels f self other) @ replicate (?h - Suc k) ?z" .
  have "for_each (\<lambda>row. for_each (combine_cell f self other row) (py_range (width self)))
           (map int [0..<Suc k]) ?init
      = for_each (combine_cell f self other (int k)) (map int [0..<?w]) ?res"
    using Suc.IH k by (simp add: for_each_append py_range_def split: outcome.splits)
  also note inner
  finally show ?case
    by (simp only: upd) simp
qed

lemma combine_elementwise:
  assumes "wf_buffer self" "wf_buffer other"
    and "nat (width self) \<le> nat (width other)" "nat (height self) \<le> nat (height other)"
    and "new (Some (width self)) (Some (height self))
           = Inr (GridBuffer_init (width self) (height self))"
  shows "combine f (Some new) self other =
           Inr \<lparr>levels = combined_levels f self other, width = width self, height = height self\<rparr>"
proof -
  have lc: "length (combined_levels f self other) = nat (height self)"
    by (simp add: combined_levels_def)
  from combine_rows [OF assms(1-4), of "nat (height self)" f]
  show ?thesis
    by (simp add: combine_def assms(5) py_range_def lc GridBuffer_init_def)
qed

lemma combine_unbound: "combine f monome_LedBuffer self other = Inl NameError"
  by (simp add: combine_def monome_LedBuffer_def)

text \<open>
  C3. The operators should return a new buffer holding the bitwise combination of the
  operands, cell by cell, and fail with a size-mismatch error when the dimensions differ.
  The code does neither: the first statement of each operator evaluates the name
  \<open>LedBuffer\<close>, which monome.py does not bind, so for every pair of buffers, of equal
  dimensions or not, the call raises NameError; \<open>GridBuffer(1, 1) & GridBuffer(1, 1)\<close> is
  such a call. (The loops that follow are those of the combination, as
  \<open>combine_elementwise\<close> shows for a name bound to the buffer class; no statement of the
  operators compares dimensions.)
\<close>

theorem combine_raises_NameError:
  "GridBuffer_and monome_LedBuffer self other = Inl NameError \<and>
   GridBuffer_xor monome_LedBuffer self other = Inl NameError \<and>
   GridBuffer_or monome_LedBuffer self other = Inl NameError \<and>
   GridBuffer_and monome_LedBuffer (GridBuffer_init 1 1) (GridBuffer_init 1 1) = Inl NameError"
  by (simp add: GridBuffer_and_def GridBuffer_xor_def GridBuffer_or_def combine_unbound)

section \<open>The disconnect notification\<close>

lemma Grid_receive_SysDisconnect: "Grid_receive g SysDisconnect = g"
  by simp

text \<open>
  C1. A \<open>/sys/disconnect\<close> notification should set the state to Disconnected, close the
  transport and call the listener's disconnect callback. The code does not do it: the
  registered handler returns the method \<open>__sys_disconnect\<close> without calling it, so a link
  that is Ready with a listener attached stays as it was; and the method itself, were it
  called, would notify the listener with \<open>on_grid_ready\<close>, not \<open>on_grid_disconnect\<close>.
\<close>

theorem sys_disconnect_is_not_handled:
  "Grid_receive ((Grid_init ''/pymonome'')\<lparr>state := READY, event_handler := Some 0\<rparr>) SysDisconnect
     = (Grid_init ''/pymonome'')\<lparr>state := READY, event_handler := Some 0\<rparr> \<and>
   state (Grid_receive ((Grid_init ''/pymonome'')\<lparr>state := READY, event_handler := Some 0\<rparr>)
            SysDisconnect) = READY \<and>
   \<not> transport_closed
      (Grid_receive ((Grid_init ''/pymonome'')\<lparr>state := READY, event_handler := Some 0\<rparr>)
         SysDisconnect) \<and>
   notified (Grid_receive ((Grid_init ''/pymonome'')\<lparr>state := READY, event_handler := Some 0\<rparr>)
               SysDisconnect) = [] \<and>
   notified (Grid_sys_disconnect
               ((Grid_init ''/pymonome'')\<lparr>state := READY, event_handler := Some 0\<rparr>))
     = [(0, OnGridReady)]"
  by (simp add: Grid_init_def Grid_sys_disconnect_def)

section \<open>Key routing in the splitter\<close>

lemma overlap_iff: "overlap a b \<longleftrightarrow> (\<exists>x y. Section_contains a x y \<and> Section_contains b x y)"
proof
  assume "overlap a b"
  then have "Section_contains a (max (part_offset_x a) (part_offset_x b))
                 (max (part_offset_y a) (part_offset_y b)) \<and>
             Section_contains b (max (part_offset_x a) (part_offset_x b))
                 (max (part_offset_y a) (part_offset_y b))"
    by (simp add: overlap_def Section_contains_def)
  then show "\<exists>x y. Section_contains a x y \<and> Section_contains b x y"
    by blast
next
  assume "\<exists>x y. Section_contains a x y \<and> Section_contains b x y"
  then show "overlap a b"
    by (auto simp: overlap_def Section_contains_def)
qed

lemma dispatch_from_none:
  "list_all (\<lambda>part. \<not> Section_contains part x y) parts \<Longrightarrow> dispatch_from i parts x y s = []"
  by (induction parts arbitrary: i) simp_all

lemma dispatch_from_only:
  assumes "non_overlapping parts" "k < length parts" "Section_contains (parts ! k) x y"
  shows "dispatch_from i parts x y s
         = [(i + k, x - part_offset_x (parts ! k), y - part_offset_y (parts ! k), s)]"
  using assms
proof (induction parts arbitrary: i k)
  case Nil
  then show ?case by simp
next
  case (Cons a rest)
  show ?case
  proof (cases k)
    case 0
    have "list_all (\<lambda>b. \<not> Section_contains b x y) rest"
      using Cons.prems 0 overlap_iff [of a] by (auto simp: list_all_iff)
    then have "dispatch_from (Suc i) rest x y s = []"
      by (rule dispatch_from_none)
    then show ?thesis
      using Cons.prems(3) 0 by simp
  next
    case (Suc k')
    then have k': "k' < length rest" "Section_contains (rest ! k') x y"
      using Cons.prems by simp_all
    then have "\<not> overlap a (rest ! k')"
      using Cons.prems(1) by (simp add: list_all_length)
    then have "\<not> Section_contains a x y"
      using k'(2) overlap_iff by blast
    moreover have "dispatch_from (Suc i) rest x y s
        = [(Suc i + k', x - part_offset_x (rest ! k'), y - part_offset_y (rest ! k'), s)]"
      using Cons.prems(1) k' by (intro Cons.IH) simp_all
    ultimately show ?thesis
      using Suc by simp
  qed
qed

lemma non_overlapping_nth:
  "non_overlapping parts \<Longrightarrow> j < k \<Longrightarrow> k < length parts \<Longrightarrow> \<not> overlap (parts ! j) (parts ! k)"
proof (induction parts arbitrary: j k)
  case Nil
  then show ?case by simp
next
  case (Cons a rest)
  show ?case
  proof (cases j)
    case 0
    with Cons.prems obtain k' where "k = Suc k'" "k' < length rest"
      by (cases k) simp_all
    with Cons.prems(1) 0 show ?thesis
      by (simp add: list_all_length)
  next
    case (Suc j')
    with Cons.prems obtain k' where "k = Suc k'" "j' < k'" "k' < length rest"
      by (cases k) simp_all
    with Cons Suc show ?thesis
      by simp
  qed
qed

text \<open>
  C8. With pairwise non-overlapping sections, a key at \<open>(ox + dx, oy + dy)\<close>, where the
  section at position \<open>k\<close> has offset \<open>(ox, oy)\<close> and size \<open>(w, h)\<close> and \<open>0 \<le> dx < w\<close>,
  \<open>0 \<le> dy < h\<close>, is delivered once, to that section, as \<open>(dx, dy)\<close>; that section is the
  first (no section before it contains the coordinate). A key that no section's rectangle
  contains is delivered to no section.
\<close>

theorem splitter_routes_key:
  assumes "non_overlapping sections"
  shows
   "(k < length sections \<and> 0 \<le> dx \<and> dx < part_width (sections ! k) \<and>
     0 \<le> dy \<and> dy < part_height (sections ! k) \<longrightarrow>
       Splitter_grid_key sections
           (part_offset_x (sections ! k) + dx) (part_offset_y (sections ! k) + dy) s
         = [(k, dx, dy, s)] \<and>
       (\<forall>j<k. \<not> Section_contains (sections ! j)
           (part_offset_x (sections ! k) + dx) (part_offset_y (sections ! k) + dy))) \<and>
    (list_all (\<lambda>part. \<not> Section_contains part x y) sections \<longrightarrow>
       Splitter_grid_key sections x y s = [])"
proof (intro conjI impI allI; (elim conjE)?)
  assume a: "k < length sections" "0 \<le> dx" "dx < part_width (sections ! k)"
    "0 \<le> dy" "dy < part_height (sections ! k)"
  let ?x = "part_offset_x (sections ! k) + dx"
  let ?y = "part_offset_y (sections ! k) + dy"
  have c: "Section_contains (sections ! k) ?x ?y"
    using a by (simp add: Section_contains_def)
  from dispatch_from_only [OF assms a(1) c, of 0 s]
  show "Splitter_grid_key sections ?x ?y s = [(k, dx, dy, s)]"
    by (simp add: Splitter_grid_key_def)
  fix j
  assume "j < k"
  then have "\<not> overlap (sections ! j) (sections ! k)"
    using assms a(1) by (simp add: non_overlapping_nth)
  then show "\<not> Section_contains (sections ! j) ?x ?y"
    using c overlap_iff by blast
next
  assume "list_all (\<lambda>part. \<not> Section_contains part x y) sections"
  then show "Splitter_grid_key sections x y s = []"
    by (simp add: Splitter_grid_key_def dispatch_from_none)
qed

theorem splitter_routes_key_witness:
  "non_overlapping
     [\<lparr>part_width = 4, part_height = 8, part_offset_x = 0, part_offset_y = 0\<rparr>,
      \<lparr>part_width = 4, part_height = 8, part_offset_x = 4, part_offset_y = 0\<rparr>] \<and>
   Splitter_grid_key
     [\<lparr>part_width = 4, part_height = 8, part_offset_x = 0, part_offset_y = 0\<rparr>,
      \<lparr>part_width = 4, part_height = 8, part_offset_x = 4, part_offset_y = 0\<rparr>] 5 3 1
     = [(1, 1, 3, 1)] \<and>
   \<not> Section_contains \<lparr>part_width = 4, part_height = 8, part_offset_x = 0, part_offset_y = 0\<rparr> 5 3 \<and>
   Splitter_grid_key
     [\<lparr>part_width = 4, part_height = 8, part_offset_x = 0, part_offset_y = 0\<rparr>,
      \<lparr>part_width = 4, part_height = 8, part_offset_x = 4, part_offset_y = 0\<rparr>] 9 0 1
     = []"
proof -
  let ?secs = "[\<lparr>part_width = 4, part_height = 8, part_offset_x = 0, part_offset_y = 0\<rparr>,
      \<lparr>part_width = 4, part_height = 8, part_offset_x = 4, part_offset_y = 0\<rparr>]"
  have n: "non_overlapping ?secs"
    by (simp add: overlap_def)
  have none: "list_all (\<lambda>part. \<not> Section_contains part 9 0) ?secs"
    by (simp add: Section_contains_def)
  from splitter_routes_key [OF n, of 1 1 3 1 9 0] none n
  show ?thesis
    by simp
qed

section \<open>What a section forwards\<close>

lemma length_py_slice_to: "0 \<le> n \<Longrightarrow> int (length (py_slice_to n xs)) \<le> n"
  by (simp add: py_slice_to_def)







section \<open>The grid methods only send\<close>

lemma unsent_send: "unsent (send g path args) = unsent g"
  by (simp add: unsent_def send_def)

lemma unsent_Grid_call: "unsent (state_of (Grid_call g c)) = unsent g"
proof (cases c)
  case (LedMap xo yo data)
  then show ?thesis
    by (simp add: Grid_led_map_def unsent_send split: sum.splits)
next
  case (LedRow xo y data)
  then show ?thesis
    by (simp add: Grid_led_row_def unsent_send split: sum.splits)
next
  case (LedCol x yo data)
  then show ?thesis
    by (simp add: Grid_led_col_def unsent_send split: sum.splits)
next
  case (LedLevelMap xo yo data)
  then show ?thesis
    by (simp add: Grid_led_level_map_def Grid_led_map_def unsent_send split: sum.splits)
next
  case (LedLevelRow xo y data)
  then show ?thesis
    by (simp add: Grid_led_level_row_def Grid_led_row_def unsent_send split: sum.splits)
next
  case (LedLevelCol x yo data)
  then show ?thesis
    by (simp add: Grid_led_level_col_def Grid_led_col_def unsent_send split: sum.splits)
qed (simp_all add: Grid_led_set_def Grid_led_all_def Grid_led_intensity_def
       Grid_led_level_set_def Grid_led_level_all_def unsent_send)

lemma unsent_GridBuffer_render: "unsent (state_of (GridBuffer_render b g)) = unsent g"
  unfolding GridBuffer_render_def
proof (rule for_each_invariant [where P = "\<lambda>s. unsent s = unsent g"])
  show "unsent g = unsent g" by simp
next
  fix xo s
  assume s: "unsent s = unsent g"
  show "unsent (state_of (for_each
          (\<lambda>y_offset g'. case get_level_map b xo y_offset of
                            Inl e \<Rightarrow> Raised e g'
                          | Inr data \<Rightarrow> Grid_led_level_map g' xo y_offset data)
          (map (\<lambda>i. i * 8) (py_range (height b div 8))) s)) = unsent g"
  proof (rule for_each_invariant [where P = "\<lambda>s. unsent s = unsent g"])
    show "unsent s = unsent g" by fact
  next
    fix yo s'
    assume "unsent s' = unsent g"
    then show "unsent (state_of (case get_level_map b xo yo of
                            Inl e \<Rightarrow> Raised e s'
                          | Inr data \<Rightarrow> Grid_led_level_map s' xo yo data)) = unsent g"
      using unsent_Grid_call [of s' "LedLevelMap xo yo data" for data]
      by (simp split: sum.splits)
  qed
qed

lemma unsent_Page_render: "unsent (state_of (Page_render pg g)) = unsent g"
proof (cases "buffer pg")
  case None
  then show ?thesis by (simp add: Page_render_def)
next
  case (Some b)
  show ?thesis
  proof (cases "GridBuffer_render b g")
    case (Done g')
    then have "unsent g' = unsent g"
      using unsent_GridBuffer_render [of b g] by simp
    then show ?thesis
      using Some Done unsent_Grid_call [of g' "LedIntensity (intensity pg)"]
      by (simp add: Page_render_def)
  next
    case (Raised e g')
    then have "unsent g' = unsent g"
      using unsent_GridBuffer_render [of b g] by simp
    then show ?thesis
      using Some Raised by (simp add: Page_render_def)
  qed
qed

lemma unsent_manager_fields:
  assumes "unsent s = unsent m"
  shows "pages s = pages m" "presses s = presses m" "current_page s = current_page m"
    "page_obj s = page_obj m" "delivered s = delivered m" "prefix s = prefix m"
    "varibright s = varibright m"
proof -
  have "pages (unsent s) = pages (unsent m)" "presses (unsent s) = presses (unsent m)"
    "current_page (unsent s) = current_page (unsent m)" "page_obj (unsent s) = page_obj (unsent m)"
    "delivered (unsent s) = delivered (unsent m)" "prefix (unsent s) = prefix (unsent m)"
    "varibright (unsent s) = varibright (unsent m)"
    using assms by simp_all
  then show "pages s = pages m" "presses s = presses m" "current_page s = current_page m"
    "page_obj s = page_obj m" "delivered s = delivered m" "prefix s = prefix m"
    "varibright s = varibright m"
    by (simp_all add: unsent_def)
qed

section \<open>Switching pages\<close>

lemma release_loop:
  assumes "current_page m = Some cur"
  shows "for_each (\<lambda>(x, y) m'. case current_page m' of
                                   None \<Rightarrow> Raised AttributeError m'
                                 | Some p \<Rightarrow> Done (deliver m' p x y 0)) ps m
         = Done (m\<lparr>delivered := delivered m @ map (\<lambda>(x, y). (cur, x, y, 0)) ps\<rparr>)"
  using assms
proof (induction ps arbitrary: m)
  case Nil
  then show ?case by simp
next
  case (Cons xy ps)
  obtain x y where xy: "xy = (x, y)" by (cases xy)
  have "current_page (deliver m cur x y 0) = Some cur"
    using Cons.prems by (simp add: deliver_def)
  from Cons.IH [OF this] show ?case
    using Cons.prems by (simp add: xy deliver_def)
qed

lemma release_presses_current:
  assumes "current_page m = Some cur"
  shows "release_presses iter m
         = Done (m\<lparr>delivered := delivered m @ map (\<lambda>(x, y). (cur, x, y, 0)) (iter (presses m)),
                   presses := {}\<rparr>)"
  by (simp add: release_presses_def release_loop [OF assms])

lemma switch_page_none:
  assumes "current_page m = Some cur"
  shows "switch_page iter m (-1)
         = Grid_led_all
             (m\<lparr>delivered := delivered m @ map (\<lambda>(x, y). (cur, x, y, 0)) (iter (presses m)),
                presses := {}, current_page := None\<rparr>) 0"
  by (simp add: switch_page_def release_presses_current [OF assms])

lemma switch_page_other:
  assumes "current_page m = Some cur" "page_num \<noteq> -1" "py_get (pages m) page_num = Inr p" "p \<noteq> cur"
  shows "switch_page iter m page_num
         = Page_render (page_obj m p)
             (m\<lparr>delivered := delivered m @ map (\<lambda>(x, y). (cur, x, y, 0)) (iter (presses m)),
                presses := {}, current_page := Some p\<rparr>)"
  using assms by (simp add: switch_page_def release_presses_current [OF assms(1)])

lemma switch_page_same:
  assumes "current_page m = Some cur" "page_num \<noteq> -1" "py_get (pages m) page_num = Inr cur"
  shows "switch_page iter m page_num = Page_render (page_obj m cur) (m\<lparr>current_page := Some cur\<rparr>)"
  using assms by (simp add: switch_page_def)

text \<open>
  C5. A manager has a current page \<open>cur\<close> and a set of \<open>N\<close> pressed coordinates. A call of
  \<open>switch_page\<close> whose target is "none" (\<open>-1\<close>) or a page other than \<open>cur\<close> delivers to
  \<open>cur\<close>, and to no other page, one release event (state 0) for each pressed coordinate,
  \<open>N\<close> events in all, in the order in which the set is iterated, and leaves the set of
  presses empty. A call whose target is \<open>cur\<close> itself delivers nothing and leaves the set
  of presses as it was.
\<close>

theorem switch_page_releases_presses:
  assumes "current_page m = Some cur" "iterates iter (presses m)"
  shows
   "(page_num = -1 \<or> (\<exists>p. py_get (pages m) page_num = Inr p \<and> p \<noteq> cur) \<longrightarrow>
       delivered (state_of (switch_page iter m page_num))
         = delivered m @ map (\<lambda>(x, y). (cur, x, y, 0)) (iter (presses m)) \<and>
       length (map (\<lambda>(x, y). (cur, x, y, 0)) (iter (presses m))) = card (presses m) \<and>
       set (map (\<lambda>(x, y). (cur, x, y, 0)) (iter (presses m)))
         = (\<lambda>(x, y). (cur, x, y, 0)) ` presses m \<and>
       presses (state_of (switch_page iter m page_num)) = {} \<and>
       current_page (state_of (switch_page iter m page_num))
         = (if page_num = -1 then None
            else map_option (\<lambda>j. pages m ! j) (py_index (pages m) page_num))) \<and>
    (page_num \<noteq> -1 \<and> py_get (pages m) page_num = Inr cur \<longrightarrow>
       delivered (state_of (switch_page iter m page_num)) = delivered m \<and>
       presses (state_of (switch_page iter m page_num)) = presses m \<and>
       current_page (state_of (switch_page iter m page_num)) = Some cur)"
proof (intro conjI impI)
  let ?rel = "map (\<lambda>(x, y). (cur, x, y, 0)) (iter (presses m))"
  assume a: "page_num = -1 \<or> (\<exists>p. py_get (pages m) page_num = Inr p \<and> p \<noteq> cur)"
  have it: "set (iter (presses m)) = presses m" "distinct (iter (presses m))"
    using assms(2) by (simp_all add: iterates_def)
  show "length ?rel = card (presses m)"
    using distinct_card [OF it(2)] it(1) by simp
  show "set ?rel = (\<lambda>(x, y). (cur, x, y, 0)) ` presses m"
    using it(1) by simp
  have "delivered (state_of (switch_page iter m page_num)) = delivered m @ ?rel \<and>
        presses (state_of (switch_page iter m page_num)) = {} \<and>
        current_page (state_of (switch_page iter m page_num))
          = (if page_num = -1 then None
            else map_option (\<lambda>j. pages m ! j) (py_index (pages m) page_num))"
  proof (cases "page_num = -1")
    case True
    let ?m1 = "m\<lparr>delivered := delivered m @ ?rel, presses := {}, current_page := None\<rparr>"
    have "unsent (state_of (switch_page iter m page_num)) = unsent ?m1"
      using unsent_Grid_call [of ?m1 "LedAll 0"]
      by (simp add: True switch_page_none [OF assms(1)])
    from unsent_manager_fields [OF this] show ?thesis
      using True by simp
  next
    case False
    with a obtain p where p: "py_get (pages m) page_num = Inr p" "p \<noteq> cur"
      by blast
    let ?m1 = "m\<lparr>delivered := delivered m @ ?rel, presses := {}, current_page := Some p\<rparr>"
    have "unsent (state_of (switch_page iter m page_num)) = unsent ?m1"
      using unsent_Page_render [of "page_obj m p" ?m1]
      by (simp add: switch_page_other [OF assms(1) False p])
    from unsent_manager_fields [OF this]
    have fields: "delivered (state_of (switch_page iter m page_num)) = delivered m @ ?rel"
        "presses (state_of (switch_page iter m page_num)) = {}"
        "current_page (state_of (switch_page iter m page_num)) = Some p"
      by simp_all
    have "map_option (\<lambda>j. pages m ! j) (py_index (pages m) page_num) = Some p"
      using p(1) by (auto simp: py_get_def split: option.splits)
    then show ?thesis
      using False fields by auto
  qed
  then show "delivered (state_of (switch_page iter m page_num)) = delivered m @ ?rel"
    and "presses (state_of (switch_page iter m page_num)) = {}"
    and "current_page (state_of (switch_page iter m page_num))
          = (if page_num = -1 then None
            else map_option (\<lambda>j. pages m ! j) (py_index (pages m) page_num))"
    by simp_all
next
  assume a: "page_num \<noteq> -1 \<and> py_get (pages m) page_num = Inr cur"
  let ?m1 = "m\<lparr>current_page := Some cur\<rparr>"
  have "unsent (state_of (switch_page iter m page_num)) = unsent ?m1"
    using unsent_Page_render [of "page_obj m cur" ?m1] a
    by (simp add: switch_page_same [OF assms(1)])
  from unsent_manager_fields [OF this]
  show "delivered (state_of (switch_page iter m page_num)) = delivered m"
    and "presses (state_of (switch_page iter m page_num)) = presses m"
    and "current_page (state_of (switch_page iter m page_num)) = Some cur"
    by simp_all
qed

theorem switch_page_releases_presses_witness:
  "current_page (state_of (BasePageManager_grid_key (state_of (BasePageManager_grid_key
       (projr (SeqPageManager_init ''/pymonome'' [0, 1] (\<lambda>r. Page_init) (7, 7))) 3 4 1)) 1 2 1))
     = Some 0 \<and>
   presses (state_of (BasePageManager_grid_key (state_of (BasePageManager_grid_key
       (projr (SeqPageManager_init ''/pymonome'' [0, 1] (\<lambda>r. Page_init) (7, 7))) 3 4 1)) 1 2 1))
     = {(1, 2), (3, 4)} \<and>
   iterates (\<lambda>S. filter (\<lambda>p. p \<in> S) [(1, 2), (3, 4)]) {(1, 2), (3, 4)} \<and>
   delivered (state_of (switch_page (\<lambda>S. filter (\<lambda>p. p \<in> S) [(1, 2), (3, 4)])
       (state_of (BasePageManager_grid_key (state_of (BasePageManager_grid_key
          (projr (SeqPageManager_init ''/pymonome'' [0, 1] (\<lambda>r. Page_init) (7, 7))) 3 4 1)) 1 2 1))
       1))
     = [(0, 3, 4, 1), (0, 1, 2, 1), (0, 1, 2, 0), (0, 3, 4, 0)] \<and>
   presses (state_of (switch_page (\<lambda>S. filter (\<lambda>p. p \<in> S) [(1, 2), (3, 4)])
       (state_of (BasePageManager_grid_key (state_of (BasePageManager_grid_key
          (projr (SeqPageManager_init ''/pymonome'' [0, 1] (\<lambda>r. Page_init) (7, 7))) 3 4 1)) 1 2 1))
       1)) = {} \<and>
   current_page (state_of (switch_page (\<lambda>S. filter (\<lambda>p. p \<in> S) [(1, 2), (3, 4)])
       (state_of (BasePageManager_grid_key (state_of (BasePageManager_grid_key
          (projr (SeqPageManager_init ''/pymonome'' [0, 1] (\<lambda>r. Page_init) (7, 7))) 3 4 1)) 1 2 1))
       1)) = Some 1 \<and>
   delivered (state_of (switch_page (\<lambda>S. filter (\<lambda>p. p \<in> S) [(1, 2), (3, 4)])
       (state_of (BasePageManager_grid_key (state_of (BasePageManager_grid_key
          (projr (SeqPageManager_init ''/pymonome'' [0, 1] (\<lambda>r. Page_init) (7, 7))) 3 4 1)) 1 2 1))
       0))
     = [(0, 3, 4, 1), (0, 1, 2, 1)]"
proof -
  define m where "m = state_of (BasePageManager_grid_key (state_of (BasePageManager_grid_key
       (projr (SeqPageManager_init ''/pymonome'' [0, 1] (\<lambda>r. Page_init) (7, 7))) 3 4 1)) 1 2 1)"
  define iter :: set_order where "iter = (\<lambda>S. filter (\<lambda>p. p \<in> S) [(1, 2), (3, 4)])"
  have f: "current_page m = Some 0" "presses m = {(1, 2), (3, 4)}" "pages m = [0, 1]"
      "delivered m = [(0, 3, 4, 1), (0, 1, 2, 1)]"
    by (simp_all add: m_def SeqPageManager_init_def BasePageManager_grid_key_def deliver_def
          py_get_def py_index_def)
  have it: "iterates iter (presses m)"
    by (auto simp: f iterates_def iter_def)
  have o: "iter {(1, 2), (3, 4)} = [(1, 2), (3, 4)]"
    by (simp add: iter_def)
  from switch_page_releases_presses [OF f(1) it, of 1]
       switch_page_releases_presses [OF f(1) it, of 0]
  have "delivered (state_of (switch_page iter m 1))
          = [(0, 3, 4, 1), (0, 1, 2, 1), (0, 1, 2, 0), (0, 3, 4, 0)] \<and>
        presses (state_of (switch_page iter m 1)) = {} \<and>
        current_page (state_of (switch_page iter m 1)) = Some 1 \<and>
        delivered (state_of (switch_page iter m 0)) = [(0, 3, 4, 1), (0, 1, 2, 1)]"
    by (simp add: f o py_get_def py_index_def)
  then show ?thesis
    using f it unfolding m_def [symmetric] iter_def [symmetric] by (simp add: f)
qed

section \<open>The switch button of the sequential manager\<close>

lemma BasePageManager_ready_missing:
  "BasePageManager_ready Grid_ready_missing LedBuffer m = Raised AttributeError m"
  by (simp add: BasePageManager_ready_def Grid_ready_missing_def)

lemma SeqPageManager_ready_missing:
  "SeqPageManager_ready Grid_ready_missing LedBuffer m = Raised AttributeError m"
  by (simp add: SeqPageManager_ready_def BasePageManager_ready_missing)

text \<open>
  C7. A press at the switch button should advance the current page from position \<open>i\<close> to
  \<open>(i + 1) mod P\<close>, and a release there should be ignored. The code does not get that
  far. The button's coordinates \<open>switch_x\<close> and \<open>switch_y\<close> are set by \<open>ready\<close> only, and
  \<open>ready\<close> raises AttributeError at its first statement, \<open>super().ready()\<close>, since no class
  under \<open>BasePageManager\<close> defines \<open>ready\<close>: the manager is left as it was, without the
  two attributes. Then \<open>grid_key\<close>, which reads \<open>self.switch_x\<close> whenever no coordinate is
  pressed, raises AttributeError for every key: on a manager of three pages with switch
  button \<open>(7, 7)\<close> on an 8 by 8 device, the press at \<open>(7, 7)\<close> leaves page 0 current.
\<close>

theorem switch_button_is_never_set:
  "SeqPageManager_ready Grid_ready_missing LedBuffer m = Raised AttributeError m \<and>
   switch_x (state_of (SeqPageManager_ready Grid_ready_missing monome_LedBuffer
      ((projr (SeqPageManager_init ''/pymonome'' [0, 1, 2] (\<lambda>r. Page_init) (7, 7)))
         \<lparr>grid_width := Some 8, grid_height := Some 8\<rparr>))) = None \<and>
   SeqPageManager_grid_key iter
      (state_of (SeqPageManager_ready Grid_ready_missing monome_LedBuffer
         ((projr (SeqPageManager_init ''/pymonome'' [0, 1, 2] (\<lambda>r. Page_init) (7, 7)))
            \<lparr>grid_width := Some 8, grid_height := Some 8\<rparr>))) x y s
     = Raised AttributeError
         ((projr (SeqPageManager_init ''/pymonome'' [0, 1, 2] (\<lambda>r. Page_init) (7, 7)))
            \<lparr>grid_width := Some 8, grid_height := Some 8\<rparr>) \<and>
   current_page (state_of (SeqPageManager_grid_key iter
      (state_of (SeqPageManager_ready Grid_ready_missing monome_LedBuffer
         ((projr (SeqPageManager_init ''/pymonome'' [0, 1, 2] (\<lambda>r. Page_init) (7, 7)))
            \<lparr>grid_width := Some 8, grid_height := Some 8\<rparr>))) 7 7 1)) = Some 0"
  by (simp add: SeqPageManager_ready_missing SeqPageManager_grid_key_def SeqPageManager_init_def
        py_get_def py_index_def)

section \<open>The LED methods of a page\<close>

lemma Page_ready_unbound: "Page_ready monome_LedBuffer pg = Raised NameError pg"
  by (simp add: Page_ready_def monome_LedBuffer_def)

lemma Page_led_without_buffer:
  "buffer (page_obj m p) = None \<Longrightarrow> Page_led m p cmd = Raised AttributeError m"
  by (simp add: Page_led_def)

text \<open>
  C6. Every LED method of a page should update the page's own buffer, whether or not the
  page is current, and pass the same command on to the manager exactly when the page is
  current. The code cannot: the buffer is allocated by \<open>Page.ready\<close> only, whose single
  statement evaluates the name \<open>LedBuffer\<close>, which monome.py does not bind, so \<open>ready\<close>
  raises NameError and \<open>__buffer\<close> stays \<open>None\<close> (and the manager's \<open>ready\<close>, which would
  call it, raises before it reaches the pages). With \<open>__buffer\<close> being \<open>None\<close>, each of
  the ten methods that write levels raises AttributeError at its first statement, on the
  current page as on any other: no buffer is updated and nothing is passed on.
\<close>

theorem page_writes_raise:
  "Page_ready monome_LedBuffer pg = Raised NameError pg \<and>
   BasePageManager_ready Grid_ready_missing LedBuffer m = Raised AttributeError m \<and>
   current_page (projr (SeqPageManager_init ''/pymonome'' [0, 1] (\<lambda>r. Page_init) (-1, -1)))
     = Some 0 \<and>
   Page_call (projr (SeqPageManager_init ''/pymonome'' [0, 1] (\<lambda>r. Page_init) (-1, -1))) 0
       (LedSet 0 0 1)
     = Raised AttributeError
         (projr (SeqPageManager_init ''/pymonome'' [0, 1] (\<lambda>r. Page_init) (-1, -1))) \<and>
   Page_call (projr (SeqPageManager_init ''/pymonome'' [0, 1] (\<lambda>r. Page_init) (-1, -1))) 1
       (LedSet 0 0 1)
     = Raised AttributeError
         (projr (SeqPageManager_init ''/pymonome'' [0, 1] (\<lambda>r. Page_init) (-1, -1))) \<and>
   Page_led (m\<lparr>page_obj := (page_obj m)(p := Page_init)\<rparr>) p cmd
     = Raised AttributeError (m\<lparr>page_obj := (page_obj m)(p := Page_init)\<rparr>)"
  by (simp add: Page_ready_unbound BasePageManager_ready_missing Page_call_def
        Page_led_without_buffer SeqPageManager_init_def py_get_def py_index_def Page_init_def)

end
